theory Spec2Isabelle
  imports Complex_Main "HOL-Library.AList"
begin

section \<open>External control session manager\<close>

text \<open>
  A shallow embedding of the class \<open>ExternalControlManager\<close> (the TypeScript module that
  \<open>webRouter.ts\<close> imports as \<open>./externalControl.js\<close>).

  Conventions of the embedding.
  \<^item> A JavaScript \<open>number\<close> that only takes part in equality tests and truthiness tests
    (the range of a view) is a rational; an optional field is an \<open>option\<close>.
  \<^item> The \<open>id\<close> of a zone is read from an SQLite \<open>INTEGER\<close> column and reaches the code
    as a JavaScript \<open>number\<close>: the integer rounded to the nearest IEEE double
    (\<open>toDouble\<close>), which a template literal renders with the shortest digits that
    identify the double (\<open>numberToString\<close>).
  \<^item> A \<open>WebSocket\<close> object is identified by a natural number; whether its
    \<open>readyState\<close> is \<open>OPEN\<close> is a predicate \<open>isOpen\<close> handed to every operation.
  \<^item> A \<open>Set<WebSocket>\<close> is the list of its members in insertion order, a
    \<open>Map\<close> is an association list in insertion order.
  \<^item> \<open>new Date()\<close> is the parameter \<open>now\<close> (milliseconds), \<open>getAreas()\<close> is the
    parameter \<open>areas\<close>.
  \<^item> Every \<open>ws.send\<close> and every \<open>controlEvents.emit\<close> is an entry of the list of
    effects an operation returns, in the order the source performs them.
  \<^item> Session objects are shared by reference in the source; an operation of the model
    takes the session value and the caller stores the result back under its key.
\<close>

subsection \<open>JavaScript primitives\<close>

type_synonym socket = nat

text \<open>\<open>x || d\<close> on an optional number: \<open>undefined\<close> and \<open>0\<close> are falsy.\<close>

definition numberOr :: "rat option \<Rightarrow> rat \<Rightarrow> rat" where
  "numberOr x d = (case x of None \<Rightarrow> d | Some r \<Rightarrow> if r = 0 then d else r)"

text \<open>\<open>x || d\<close> on an optional string: \<open>undefined\<close> and the empty string are falsy.\<close>

definition stringOr :: "string option \<Rightarrow> string \<Rightarrow> string" where
  "stringOr x d = (case x of None \<Rightarrow> d | Some s \<Rightarrow> if s = [] then d else s)"

text \<open>Truthiness of an optional string and of an optional number.\<close>

definition truthy_str :: "string option \<Rightarrow> bool" where
  "truthy_str x = (case x of None \<Rightarrow> False | Some s \<Rightarrow> s \<noteq> [])"

definition truthy_num :: "rat option \<Rightarrow> bool" where
  "truthy_num x = (case x of None \<Rightarrow> False | Some r \<Rightarrow> r \<noteq> 0)"

text \<open>\<open>x || false\<close> on an optional boolean.\<close>

definition boolOr :: "bool option \<Rightarrow> bool" where
  "boolOr x = (case x of None \<Rightarrow> False | Some b \<Rightarrow> b)"

text \<open>\<open>Array.prototype.indexOf\<close>: the first position holding the value, \<open>-1\<close> if none.\<close>

fun indexOfFrom :: "int \<Rightarrow> 'a list \<Rightarrow> 'a \<Rightarrow> int" where
  "indexOfFrom i [] x = -1"
| "indexOfFrom i (y # ys) x = (if y = x then i else indexOfFrom (i + 1) ys x)"

definition indexOf :: "'a list \<Rightarrow> 'a \<Rightarrow> int" where
  "indexOf xs x = indexOfFrom 0 xs x"

text \<open>The remainder operator \<open>%\<close>: the result takes the sign of the dividend.\<close>

definition js_rem :: "int \<Rightarrow> int \<Rightarrow> int" where
  "js_rem a b = sgn a * (\<bar>a\<bar> mod \<bar>b\<bar>)"

text \<open>\<open>Set.prototype.add\<close> and \<open>Set.prototype.delete\<close> on an insertion-ordered set.\<close>

definition set_add :: "'a \<Rightarrow> 'a list \<Rightarrow> 'a list" where
  "set_add x xs = (if x \<in> set xs then xs else xs @ [x])"

definition set_delete :: "'a \<Rightarrow> 'a list \<Rightarrow> 'a list" where
  "set_delete x xs = removeAll x xs"

text \<open>The decimal digits of a natural number.\<close>

definition digit_char :: "nat \<Rightarrow> char" where
  "digit_char d = ''0123456789'' ! d"

function digits :: "nat \<Rightarrow> string" where
  "digits n = (if n < 10 then [digit_char n] else digits (n div 10) @ [digit_char (n mod 10)])"
  by pat_completeness auto
termination
  by (relation "measure id") auto

declare digits.simps [simp del]

text \<open>
  An integer as the JavaScript \<open>number\<close> the database driver hands over: the nearest IEEE
  double, ties to the even significand. A magnitude below \<open>2^53\<close> is exact; above, with
  \<open>bitLength\<close> binary digits, the lowest \<open>bitLength - 53\<close> bits are rounded away.
\<close>

function bitLength :: "nat \<Rightarrow> nat" where
  "bitLength n = (if n = 0 then 0 else Suc (bitLength (n div 2)))"
  by pat_completeness auto
termination
  by (relation "measure id") auto

declare bitLength.simps [simp del]

definition roundMagnitude :: "nat \<Rightarrow> nat" where
  "roundMagnitude n =
     (if n < 2 ^ 53 then n
      else (let e = bitLength n - 53; q = n div 2 ^ e; r = n mod 2 ^ e; half = 2 ^ (e - 1)
            in (if half < r \<or> (r = half \<and> odd q) then q + 1 else q) * 2 ^ e))"

definition toDouble :: "int \<Rightarrow> int" where
  "toDouble i =
     (if i < 0 then - int (roundMagnitude (nat (- i))) else int (roundMagnitude (nat i)))"

text \<open>
  \<open>Number.prototype.toString\<close> on an integer-valued double of magnitude below \<open>10^21\<close>:
  the digits of the integer with the most trailing zeros among those that round to the
  double (the shortest significand), the closest one if two qualify, the one with the even
  significand if both are as close. \<open>shortestFrom m v\<close> tries \<open>m\<close> trailing zeros first,
  then fewer. Below \<open>2^53\<close> only the integer itself rounds to the double, so all its
  digits are printed.
\<close>

fun shortestFrom :: "nat \<Rightarrow> nat \<Rightarrow> nat" where
  "shortestFrom 0 v = v"
| "shortestFrom (Suc m) v =
     (let p = 10 ^ Suc m; lo = (v div p) * p; hi = lo + p;
          okLo = (0 < lo \<and> roundMagnitude lo = v); okHi = (roundMagnitude hi = v)
      in if okLo \<and> okHi
         then (if v - lo < hi - v then lo else if hi - v < v - lo then hi
               else if even (lo div p) then lo else hi)
         else if okLo then lo else if okHi then hi else shortestFrom m v)"

definition numberToString :: "int \<Rightarrow> string" where
  "numberToString x =
     (let v = nat \<bar>x\<bar>; w = (if v < 2 ^ 53 then v else shortestFrom 20 v)
      in if x < 0 then CHR ''-'' # digits w else digits w)"

subsection \<open>Data model\<close>

record CurrentView =
  mode :: string
  range_cv :: "rat option"
  zonesEnabled :: "bool option"
  selectedAircraft :: "string option"

record Session =
  id_session :: string
  viewers :: "socket list"
  controllers :: "socket list"
  currentView :: CurrentView
  createdAt :: int
  lastActivity :: int

datatype MessageType =
  MODE | RANGE | ZONES | SELECT | REGISTER_VIEWER | REGISTER_CONTROLLER | STATE_REQUEST

text \<open>The optional \<open>currentView\<close> object of a \<open>REGISTER_VIEWER\<close> message.\<close>

record ReportedView =
  rv_mode :: "string option"
  rv_range :: "rat option"

record ControlMessage =
  msg_type :: MessageType
  sessionId :: string
  direction :: "string option"
  reportedView :: "ReportedView option"

text \<open>
  The rows of the table \<open>areas\<close> that \<open>getAreas\<close> returns; \<open>area_id\<close> is the stored
  integer (a signed 64-bit value), which the code sees as \<open>toDouble\<close> of it.
\<close>

record Area =
  area_id :: int
  area_name :: string
  polygon :: string
  min_altitude :: "int option"
  max_altitude :: "int option"

text \<open>
  Outgoing frames: \<open>STATE_UPDATE sessionId mode range zonesEnabled\<close> and
  \<open>SELECT_AIRCRAFT sessionId direction\<close>.
\<close>

datatype OutMessage =
  STATE_UPDATE string string rat bool
| SELECT_AIRCRAFT string string

datatype Effect =
  Send socket OutMessage
| StateUpdateEvent string CurrentView

record Manager =
  sessions :: "(string \<times> Session) list"
  wsToSession :: "(socket \<times> string) list"

definition emptyManager :: Manager where
  "emptyManager = \<lparr>sessions = [], wsToSession = []\<rparr>"

subsection \<open>Session store\<close>

definition has :: "('k \<times> 'v) list \<Rightarrow> 'k \<Rightarrow> bool" where
  "has tbl k = (map_of tbl k \<noteq> None)"

definition newSession :: "int \<Rightarrow> string \<Rightarrow> Session" where
  "newSession now sid =
     \<lparr>id_session = sid, viewers = [], controllers = [],
      currentView = \<lparr>mode = ''radar'', range_cv = Some 10, zonesEnabled = Some False,
                     selectedAircraft = None\<rparr>,
      createdAt = now, lastActivity = now\<rparr>"

text \<open>
  \<open>createSession(id)\<close> with an identifier that is given and not empty. Without one the
  source draws an identifier with \<open>Math.random()\<close> (\<open>generateSessionId\<close>); that branch is
  not part of this model.
\<close>

definition createSessionWith :: "int \<Rightarrow> string \<Rightarrow> Manager \<Rightarrow> string \<times> Manager" where
  "createSessionWith now sid m =
     (if \<not> has (sessions m) sid
      then (sid, m\<lparr>sessions := AList.update sid (newSession now sid) (sessions m)\<rparr>)
      else (sid, m))"

definition getSession :: "int \<Rightarrow> string \<Rightarrow> Manager \<Rightarrow> Session option \<times> Manager" where
  "getSession now sid m =
     (case map_of (sessions m) sid of
        None \<Rightarrow> (None, m)
      | Some session \<Rightarrow>
          (let session' = session\<lparr>lastActivity := now\<rparr>
           in (Some session', m\<lparr>sessions := AList.update sid session' (sessions m)\<rparr>)))"

text \<open>Writing a mutated session object back under its key.\<close>

definition store :: "string \<Rightarrow> Session \<Rightarrow> Manager \<Rightarrow> Manager" where
  "store sid session m = m\<lparr>sessions := AList.update sid session (sessions m)\<rparr>"

subsection \<open>State broadcaster\<close>

definition stateUpdate :: "Session \<Rightarrow> OutMessage" where
  "stateUpdate session =
     STATE_UPDATE (id_session session) (mode (currentView session))
       (numberOr (range_cv (currentView session)) 10)
       (boolOr (zonesEnabled (currentView session)))"

definition sendStateToClient :: "(socket \<Rightarrow> bool) \<Rightarrow> socket \<Rightarrow> Session \<Rightarrow> Effect list" where
  "sendStateToClient isOpen ws session =
     (if isOpen ws then [Send ws (stateUpdate session)] else [])"

definition broadcastToControllers :: "(socket \<Rightarrow> bool) \<Rightarrow> Session \<Rightarrow> Effect list" where
  "broadcastToControllers isOpen session =
     map (\<lambda>ws. Send ws (stateUpdate session)) (filter isOpen (controllers session))"

definition broadcastStateUpdate :: "(socket \<Rightarrow> bool) \<Rightarrow> Session \<Rightarrow> Effect list" where
  "broadcastStateUpdate isOpen session =
     map (\<lambda>ws. Send ws (stateUpdate session)) (filter isOpen (viewers session))
     @ map (\<lambda>ws. Send ws (stateUpdate session)) (filter isOpen (controllers session))
     @ [StateUpdateEvent (id_session session) (currentView session)]"

subsection \<open>Connection registry\<close>

definition registerViewer ::
  "int \<Rightarrow> (socket \<Rightarrow> bool) \<Rightarrow> string \<Rightarrow> socket \<Rightarrow> ReportedView option \<Rightarrow> Manager
     \<Rightarrow> bool \<times> Manager \<times> Effect list" where
  "registerViewer now isOpen sid ws cv m =
     (case getSession now sid m of
        (None, _) \<Rightarrow> (False, m, [])
      | (Some session, m1) \<Rightarrow>
          (let s1 = session\<lparr>viewers := set_add ws (viewers session)\<rparr>;
               reg = AList.update ws sid (wsToSession m1);
               (s3, out) =
                 (case cv of
                    None \<Rightarrow> (s1, [])
                  | Some v \<Rightarrow>
                      (let (s2, needsUpdate1) =
                             (if truthy_str (rv_mode v) \<and> rv_mode v \<noteq> Some (mode (currentView s1))
                              then (s1\<lparr>currentView := (currentView s1)\<lparr>mode := the (rv_mode v)\<rparr>\<rparr>, True)
                              else (s1, False));
                           (s3, needsUpdate2) =
                             (if truthy_num (rv_range v) \<and> rv_range v \<noteq> range_cv (currentView s2)
                              then (s2\<lparr>currentView := (currentView s2)\<lparr>range_cv := rv_range v\<rparr>\<rparr>, True)
                              else (s2, needsUpdate1))
                       in (s3, if needsUpdate2 then broadcastToControllers isOpen s3 else [])))
           in (True,
               m1\<lparr>sessions := AList.update sid s3 (sessions m1), wsToSession := reg\<rparr>,
               out @ sendStateToClient isOpen ws s3)))"

definition registerController ::
  "int \<Rightarrow> (socket \<Rightarrow> bool) \<Rightarrow> string \<Rightarrow> socket \<Rightarrow> Manager \<Rightarrow> bool \<times> Manager \<times> Effect list" where
  "registerController now isOpen sid ws m =
     (case getSession now sid m of
        (None, _) \<Rightarrow> (False, m, [])
      | (Some session, m1) \<Rightarrow>
          (let s1 = session\<lparr>controllers := set_add ws (controllers session)\<rparr>
           in (True,
               m1\<lparr>sessions := AList.update sid s1 (sessions m1),
                  wsToSession := AList.update ws sid (wsToSession m1)\<rparr>,
               sendStateToClient isOpen ws s1)))"

definition unregisterClient :: "socket \<Rightarrow> Manager \<Rightarrow> Manager" where
  "unregisterClient ws m =
     (case map_of (wsToSession m) ws of
        None \<Rightarrow> m
      | Some sid \<Rightarrow>
          (if sid = [] then m
           else
             (let m1 = (case map_of (sessions m) sid of
                          None \<Rightarrow> m
                        | Some session \<Rightarrow>
                            store sid (session\<lparr>viewers := set_delete ws (viewers session),
                                               controllers := set_delete ws (controllers session)\<rparr>) m)
              in m1\<lparr>wsToSession := AList.delete ws (wsToSession m1)\<rparr>)))"

subsection \<open>Control protocol handler\<close>

text \<open>
  \<open>handleModeChange\<close> is an async method: it awaits the import of \<open>dbHelpers.js\<close> and then
  runs to completion. The model runs it at once, with the rows \<open>getAreas()\<close> returns as
  the parameter \<open>areas\<close>.
\<close>

definition zoneModes :: "Area list \<Rightarrow> string list" where
  "zoneModes areas =
     ''radar'' # map (\<lambda>a. ''zone_'' @ numberToString (toDouble (area_id a))) areas"

text \<open>
  The computation of \<open>newIndex\<close> from \<open>currentIndex\<close>, which \<open>handleModeChange\<close> and
  \<open>handleRangeChange\<close> both spell out: forward is \<open>(currentIndex + 1) % length\<close>, anything
  else is \<open>currentIndex - 1\<close>, replaced by \<open>length - 1\<close> when negative.
\<close>

definition stepIndex :: "string \<Rightarrow> int \<Rightarrow> nat \<Rightarrow> int" where
  "stepIndex dir currentIndex len =
     (if dir = ''forward'' then js_rem (currentIndex + 1) (int len)
      else (let newIndex = currentIndex - 1 in if newIndex < 0 then int len - 1 else newIndex))"

definition handleModeChange ::
  "(socket \<Rightarrow> bool) \<Rightarrow> Area list \<Rightarrow> Session \<Rightarrow> string \<Rightarrow> Session \<times> Effect list" where
  "handleModeChange isOpen areas session dir =
     (let modes = zoneModes areas;
          currentIndex = indexOf modes (mode (currentView session));
          newIndex = stepIndex dir currentIndex (length modes);
          newMode = modes ! nat newIndex;
          oldMode = mode (currentView session);
          s1 = session\<lparr>currentView := (currentView session)\<lparr>mode := newMode\<rparr>\<rparr>;
          wasRadar = (oldMode = ''radar'');
          isRadar = (newMode = ''radar'');
          s2 = (if wasRadar \<and> \<not> isRadar
                then s1\<lparr>currentView := (currentView s1)\<lparr>range_cv := Some 1\<rparr>\<rparr>
                else if \<not> wasRadar \<and> isRadar
                then s1\<lparr>currentView := (currentView s1)\<lparr>range_cv := Some 10\<rparr>\<rparr>
                else s1)
      in (s2, broadcastStateUpdate isOpen s2))"

definition rangeDomain :: "bool \<Rightarrow> rat list" where
  "rangeDomain isRadar = (if isRadar then [5, 10, 15, 25, 50, 100] else [1, 4, 12, 24])"

definition handleRangeChange ::
  "(socket \<Rightarrow> bool) \<Rightarrow> Session \<Rightarrow> string \<Rightarrow> Session \<times> Effect list" where
  "handleRangeChange isOpen session dir =
     (let isRadar = (mode (currentView session) = ''radar'');
          ranges = rangeDomain isRadar;
          currentRange = numberOr (range_cv (currentView session)) (if isRadar then 10 else 1);
          currentIndex = indexOf ranges currentRange;
          newIndex = stepIndex dir currentIndex (length ranges);
          s1 = session\<lparr>currentView := (currentView session)\<lparr>range_cv := Some (ranges ! nat newIndex)\<rparr>\<rparr>
      in (s1, broadcastStateUpdate isOpen s1))"

definition handleZonesToggle :: "(socket \<Rightarrow> bool) \<Rightarrow> Session \<Rightarrow> Session \<times> Effect list" where
  "handleZonesToggle isOpen session =
     (if mode (currentView session) = ''radar''
      then (let s1 = session\<lparr>currentView := (currentView session)
                        \<lparr>zonesEnabled := Some (\<not> boolOr (zonesEnabled (currentView session)))\<rparr>\<rparr>
            in (s1, broadcastStateUpdate isOpen s1))
      else (session, []))"

definition handleSelectChange ::
  "(socket \<Rightarrow> bool) \<Rightarrow> Session \<Rightarrow> string \<Rightarrow> Session \<times> Effect list" where
  "handleSelectChange isOpen session dir =
     (if mode (currentView session) \<noteq> ''radar'' then (session, [])
      else (session,
            map (\<lambda>ws. Send ws (SELECT_AIRCRAFT (id_session session) dir))
                (filter isOpen (viewers session))))"

definition handleControlMessage ::
  "int \<Rightarrow> (socket \<Rightarrow> bool) \<Rightarrow> Area list \<Rightarrow> socket \<Rightarrow> ControlMessage \<Rightarrow> Manager
     \<Rightarrow> Manager \<times> Effect list" where
  "handleControlMessage now isOpen areas ws message m =
     (case getSession now (sessionId message) m of
        (None, _) \<Rightarrow> (m, [])
      | (Some session, m1) \<Rightarrow>
          (case msg_type message of
             REGISTER_VIEWER \<Rightarrow>
               snd (registerViewer now isOpen (sessionId message) ws (reportedView message) m1)
           | REGISTER_CONTROLLER \<Rightarrow>
               snd (registerController now isOpen (sessionId message) ws m1)
           | STATE_REQUEST \<Rightarrow> (m1, sendStateToClient isOpen ws session)
           | MODE \<Rightarrow>
               (let (s, out) = handleModeChange isOpen areas session
                                 (stringOr (direction message) ''forward'')
                in (store (sessionId message) s m1, out))
           | RANGE \<Rightarrow>
               (let (s, out) = handleRangeChange isOpen session
                                 (stringOr (direction message) ''forward'')
                in (store (sessionId message) s m1, out))
           | ZONES \<Rightarrow>
               (let (s, out) = handleZonesToggle isOpen session
                in (store (sessionId message) s m1, out))
           | SELECT \<Rightarrow>
               (let (s, out) = handleSelectChange isOpen session
                                 (stringOr (direction message) ''forward'')
                in (store (sessionId message) s m1, out))))"

subsection \<open>Eviction sweep\<close>

definition maxInactivity :: int where
  "maxInactivity = 30 * 60 * 1000"

definition inactive :: "int \<Rightarrow> Session \<Rightarrow> bool" where
  "inactive now session =
     (let timeSinceActivity = now - lastActivity session;
          hasNoClients = (length (viewers session) = 0 \<and> length (controllers session) = 0)
      in hasNoClients \<and> timeSinceActivity > maxInactivity)"

definition cleanupInactiveSessions :: "int \<Rightarrow> Manager \<Rightarrow> Manager" where
  "cleanupInactiveSessions now m =
     m\<lparr>sessions :=
         fold (\<lambda>(sid, session) tbl. if inactive now session then AList.delete sid tbl else tbl)
              (sessions m) (sessions m)\<rparr>"

definition hasControllers :: "string \<Rightarrow> Manager \<Rightarrow> bool" where
  "hasControllers sid m =
     (case map_of (sessions m) sid of None \<Rightarrow> False | Some session \<Rightarrow> length (controllers session) > 0)"

subsection \<open>Observers and scenario helpers\<close>

text \<open>The display state of a session of the store, if the session exists.\<close>

definition viewOf :: "Manager \<Rightarrow> string \<Rightarrow> CurrentView option" where
  "viewOf m sid = map_option currentView (map_of (sessions m) sid)"

definition modeOf :: "Manager \<Rightarrow> string \<Rightarrow> string option" where
  "modeOf m sid = map_option mode (viewOf m sid)"

definition rangeOf :: "Manager \<Rightarrow> string \<Rightarrow> rat option" where
  "rangeOf m sid = (case viewOf m sid of None \<Rightarrow> None | Some v \<Rightarrow> range_cv v)"

text \<open>Handling messages one after the other, as the event loop does, keeping the store.\<close>

fun processAll ::
  "int \<Rightarrow> (socket \<Rightarrow> bool) \<Rightarrow> Area list \<Rightarrow> (socket \<times> ControlMessage) list \<Rightarrow> Manager \<Rightarrow> Manager" where
  "processAll now isOpen areas [] m = m"
| "processAll now isOpen areas ((ws, message) # rest) m =
     processAll now isOpen areas rest (fst (handleControlMessage now isOpen areas ws message m))"

definition controlMsg :: "MessageType \<Rightarrow> string \<Rightarrow> string option \<Rightarrow> ControlMessage" where
  "controlMsg t sid d = \<lparr>msg_type = t, sessionId = sid, direction = d, reportedView = None\<rparr>"

definition zone :: "int \<Rightarrow> Area" where
  "zone i = \<lparr>area_id = i, area_name = ''zone'', polygon = ''[]'',
             min_altitude = None, max_altitude = None\<rparr>"

definition allOpen :: "socket \<Rightarrow> bool" where
  "allOpen ws = True"

text \<open>Session \<open>9999\<close> freshly created at time 0, then a controller (socket 1) registered.\<close>

definition session9999 :: Manager where
  "session9999 =
     fst (handleControlMessage 0 allOpen [] 1 (controlMsg REGISTER_CONTROLLER ''9999'' None)
            (snd (createSessionWith 0 ''9999'' emptyManager)))"

text \<open>A store holding only session \<open>9999\<close>, in radar mode with the given range.\<close>

definition atRange :: "rat \<Rightarrow> Manager" where
  "atRange r =
     store ''9999'' ((newSession 0 ''9999'')\<lparr>currentView := (currentView (newSession 0 ''9999''))
                                                  \<lparr>range_cv := Some r\<rparr>\<rparr>) emptyManager"

text \<open>
  A store with two sessions last active at time 0: \<open>1111\<close> has no socket, \<open>2222\<close> has one
  viewer (socket 4).
\<close>

definition twoSessions :: Manager where
  "twoSessions =
     fst (handleControlMessage 0 allOpen [] 4 (controlMsg REGISTER_VIEWER ''2222'' None)
            (snd (createSessionWith 0 ''2222'' (snd (createSessionWith 0 ''1111'' emptyManager)))))"

text \<open>Session \<open>9999\<close> with its controller (socket 1) and a viewer (socket 2).\<close>

definition withViewer :: Manager where
  "withViewer =
     fst (handleControlMessage 0 allOpen [] 2 (controlMsg REGISTER_VIEWER ''9999'' None) session9999)"

text \<open>
  The reading of a viewer's report that \<open>registerViewer\<close> implements: a reported field
  counts when it is present and truthy (a non-empty mode, a non-zero range).
  \<open>reportedDiffers\<close>: some field that counts differs from the session's.
  \<open>adoptReported\<close>: every field that counts replaces the session's.
\<close>

definition reportedDiffers :: "ReportedView option \<Rightarrow> CurrentView \<Rightarrow> bool" where
  "reportedDiffers rv cv =
     (case rv of
        None \<Rightarrow> False
      | Some v \<Rightarrow> (truthy_str (rv_mode v) \<and> rv_mode v \<noteq> Some (mode cv))
                  \<or> (truthy_num (rv_range v) \<and> rv_range v \<noteq> range_cv cv))"

definition adoptReported :: "ReportedView option \<Rightarrow> CurrentView \<Rightarrow> CurrentView" where
  "adoptReported rv cv =
     (case rv of
        None \<Rightarrow> cv
      | Some v \<Rightarrow> cv\<lparr>mode := (if truthy_str (rv_mode v) then the (rv_mode v) else mode cv),
                      range_cv := (if truthy_num (rv_range v) then rv_range v else range_cv cv)\<rparr>)"

definition registerMsg :: "string \<Rightarrow> string option \<Rightarrow> rat option \<Rightarrow> ControlMessage" where
  "registerMsg sid md r =
     \<lparr>msg_type = REGISTER_VIEWER, sessionId = sid, direction = None,
      reportedView = Some \<lparr>rv_mode = md, rv_range = r\<rparr>\<rparr>"

text \<open>
  Session \<open>9999\<close> after a viewer (socket 2) registered reporting range 7, which is in
  neither range domain.
\<close>

definition staleRange :: Manager where
  "staleRange =
     fst (handleControlMessage 0 allOpen [] 2 (registerMsg ''9999'' None (Some 7)) session9999)"

text \<open>
  Session \<open>9999\<close> after two MODE forward messages while the zone directory held zones 1
  and 2: the session is parked on \<open>zone_2\<close>.
\<close>

definition parkedOnZone2 :: Manager where
  "parkedOnZone2 =
     processAll 0 allOpen [zone 1, zone 2]
       [(1, controlMsg MODE ''9999'' (Some ''forward'')),
        (1, controlMsg MODE ''9999'' (Some ''forward''))] session9999"

text \<open>
  Session \<open>9999\<close> after socket 1, already its controller, also registered as a viewer.
\<close>

definition bothRoles :: Manager where
  "bothRoles =
     fst (handleControlMessage 0 allOpen [] 1 (controlMsg REGISTER_VIEWER ''9999'' None) session9999)"

text \<open>
  A zone directory with the two ids \<open>2^53\<close> and \<open>2^53 + 1\<close>, the mode name of the
  JavaScript number \<open>2^53\<close>, and session \<open>9999\<close> after one MODE forward message with
  this directory.
\<close>

definition bigZones :: "Area list" where
  "bigZones = [zone 9007199254740992, zone 9007199254740993]"

definition bigMode :: string where
  "bigMode = ''zone_'' @ numberToString 9007199254740992"

definition parkedOnBigZone :: Manager where
  "parkedOnBigZone =
     processAll 0 allOpen bigZones [(1, controlMsg MODE ''9999'' (Some ''forward''))] session9999"

lemmas model_defs = handleControlMessage_def getSession_def store_def handleModeChange_def
  handleRangeChange_def handleZonesToggle_def handleSelectChange_def registerViewer_def
  registerController_def broadcastStateUpdate_def broadcastToControllers_def sendStateToClient_def
  stateUpdate_def zoneModes_def stepIndex_def rangeDomain_def indexOf_def js_rem_def numberOr_def
  stringOr_def boolOr_def truthy_str_def truthy_num_def set_add_def numberToString_def toDouble_def roundMagnitude_def digits.simps digit_char_def
  createSessionWith_def newSession_def has_def emptyManager_def viewOf_def modeOf_def rangeOf_def controlMsg_def
  zone_def allOpen_def session9999_def atRange_def twoSessions_def withViewer_def
  registerMsg_def Let_def

section \<open>Shared lemmas\<close>

lemma getSession_found:
  "map_of (sessions m) sid = Some s \<Longrightarrow>
   getSession now sid m = (Some (s\<lparr>lastActivity := now\<rparr>), store sid (s\<lparr>lastActivity := now\<rparr>) m)"
  by (simp add: getSession_def store_def Let_def)

lemma getSession_missing:
  "map_of (sessions m) sid = None \<Longrightarrow> getSession now sid m = (None, m)"
  by (simp add: getSession_def)

lemma map_of_store_same: "map_of (sessions (store sid s m)) sid = Some s"
  by (simp add: store_def update_conv')

lemma map_of_store_other: "k \<noteq> sid \<Longrightarrow> map_of (sessions (store sid s m)) k = map_of (sessions m) k"
  by (simp add: store_def update_conv')

lemma store_store: "store sid s (store sid s' m) = store sid s m"
  by (simp add: store_def)

lemma viewOf_store: "viewOf (store sid s m) sid = Some (currentView s)"
  by (simp add: viewOf_def map_of_store_same)

lemma handle_MODE:
  assumes "map_of (sessions m) (sessionId message) = Some s" and "msg_type message = MODE"
  shows "handleControlMessage now isOpen areas ws message m =
           (store (sessionId message)
              (fst (handleModeChange isOpen areas (s\<lparr>lastActivity := now\<rparr>)
                      (stringOr (direction message) ''forward''))) m,
            snd (handleModeChange isOpen areas (s\<lparr>lastActivity := now\<rparr>)
                   (stringOr (direction message) ''forward'')))"
  using assms
  by (simp add: handleControlMessage_def getSession_found store_store split: prod.splits)

lemma handle_RANGE:
  assumes "map_of (sessions m) (sessionId message) = Some s" and "msg_type message = RANGE"
  shows "handleControlMessage now isOpen areas ws message m =
           (store (sessionId message)
              (fst (handleRangeChange isOpen (s\<lparr>lastActivity := now\<rparr>)
                      (stringOr (direction message) ''forward''))) m,
            snd (handleRangeChange isOpen (s\<lparr>lastActivity := now\<rparr>)
                   (stringOr (direction message) ''forward'')))"
  using assms
  by (simp add: handleControlMessage_def getSession_found store_store split: prod.splits)

lemma handle_SELECT:
  assumes "map_of (sessions m) (sessionId message) = Some s" and "msg_type message = SELECT"
  shows "handleControlMessage now isOpen areas ws message m =
           (store (sessionId message)
              (fst (handleSelectChange isOpen (s\<lparr>lastActivity := now\<rparr>)
                      (stringOr (direction message) ''forward''))) m,
            snd (handleSelectChange isOpen (s\<lparr>lastActivity := now\<rparr>)
                   (stringOr (direction message) ''forward'')))"
  using assms
  by (simp add: handleControlMessage_def getSession_found store_store split: prod.splits)

text \<open>Facts about \<open>indexOf\<close> and the index step.\<close>

lemma indexOfFrom_bounds: "indexOfFrom i xs x = -1 \<or> (i \<le> indexOfFrom i xs x \<and> indexOfFrom i xs x < i + int (length xs))"
proof (induction xs arbitrary: i)
  case Nil
  then show ?case by simp
next
  case (Cons y ys)
  from Cons.IH [of "i + 1"] show ?case by auto
qed

lemma indexOfFrom_absent: "x \<notin> set xs \<Longrightarrow> indexOfFrom i xs x = -1"
  by (induction xs arbitrary: i) auto

lemma indexOfFrom_present:
  "x \<in> set xs \<Longrightarrow> 0 \<le> i \<Longrightarrow>
   i \<le> indexOfFrom i xs x \<and> indexOfFrom i xs x < i + int (length xs)
   \<and> xs ! nat (indexOfFrom i xs x - i) = x"
proof (induction xs arbitrary: i)
  case Nil
  then show ?case by simp
next
  case (Cons y ys)
  show ?case
  proof (cases "y = x")
    case True
    then show ?thesis by simp
  next
    case False
    with Cons.prems have mem: "x \<in> set ys" by simp
    from Cons.prems have "0 \<le> i + 1" by simp
    from Cons.IH [OF mem this]
    have ih: "i + 1 \<le> indexOfFrom (i + 1) ys x"
      "indexOfFrom (i + 1) ys x < i + 1 + int (length ys)"
      "ys ! nat (indexOfFrom (i + 1) ys x - (i + 1)) = x"
      by simp_all
    have "nat (indexOfFrom (i + 1) ys x - i) = Suc (nat (indexOfFrom (i + 1) ys x - (i + 1)))"
      using ih(1) by simp
    with ih False show ?thesis by simp
  qed
qed

lemma indexOfFrom_nth:
  "distinct xs \<Longrightarrow> n < length xs \<Longrightarrow> indexOfFrom i xs (xs ! n) = i + int n"
proof (induction xs arbitrary: i n)
  case Nil
  then show ?case by simp
next
  case (Cons y ys)
  show ?case
  proof (cases n)
    case 0
    then show ?thesis by simp
  next
    case (Suc k)
    with Cons.prems have "k < length ys" "distinct ys" "ys ! k \<noteq> y" by auto
    with Cons.IH [of k "i + 1"] Suc show ?thesis by simp
  qed
qed

lemma indexOf_bounds: "- 1 \<le> indexOf xs x \<and> indexOf xs x < int (length xs)"
  using indexOfFrom_bounds [of 0 xs x] by (auto simp: indexOf_def)

lemma indexOf_absent: "x \<notin> set xs \<Longrightarrow> indexOf xs x = -1"
  by (simp add: indexOf_def indexOfFrom_absent)

lemma indexOf_present:
  "x \<in> set xs \<Longrightarrow> 0 \<le> indexOf xs x \<and> indexOf xs x < int (length xs) \<and> xs ! nat (indexOf xs x) = x"
  using indexOfFrom_present [of x xs 0] by (simp add: indexOf_def)

lemma indexOf_nth: "distinct xs \<Longrightarrow> n < length xs \<Longrightarrow> indexOf xs (xs ! n) = int n"
  by (simp add: indexOf_def indexOfFrom_nth)

lemma js_rem_nonneg: "0 \<le> a \<Longrightarrow> 0 < b \<Longrightarrow> js_rem a b = a mod b"
  by (cases "a = 0") (simp_all add: js_rem_def)

lemma stepIndex_bounds:
  assumes "- 1 \<le> i" and "i < int len" and "0 < len"
  shows "0 \<le> stepIndex d i len \<and> stepIndex d i len < int len"
proof (cases "d = ''forward''")
  case True
  have "js_rem (i + 1) (int len) = (i + 1) mod int len"
    using assms by (intro js_rem_nonneg) auto
  with True assms show ?thesis by (simp add: stepIndex_def)
next
  case False
  with assms show ?thesis by (auto simp: stepIndex_def Let_def)
qed

text \<open>
  The index that \<open>handleModeChange\<close> and \<open>handleRangeChange\<close> read their arrays at is
  always within the array, so the reads of the model are the reads of the source.
\<close>

lemma mode_index_in_range:
  "0 \<le> stepIndex d (indexOf (zoneModes areas) x) (length (zoneModes areas))
   \<and> stepIndex d (indexOf (zoneModes areas) x) (length (zoneModes areas))
       < int (length (zoneModes areas))"
  using indexOf_bounds [of "zoneModes areas" x]
  by (intro stepIndex_bounds) (simp_all add: zoneModes_def)

lemma range_index_in_range:
  "0 \<le> stepIndex d (indexOf (rangeDomain b) x) (length (rangeDomain b))
   \<and> stepIndex d (indexOf (rangeDomain b) x) (length (rangeDomain b))
       < int (length (rangeDomain b))"
  using indexOf_bounds [of "rangeDomain b" x]
  by (intro stepIndex_bounds) (simp_all add: rangeDomain_def)

text \<open>Decimal rendering is injective.\<close>

lemma digit_char_inj: "a < 10 \<Longrightarrow> b < 10 \<Longrightarrow> digit_char a = digit_char b \<Longrightarrow> a = b"
proof -
  assume a: "a < 10" and b: "b < 10" and e: "digit_char a = digit_char b"
  have d: "distinct ''0123456789''" by simp
  have "a < length ''0123456789''" "b < length ''0123456789''" using a b by simp_all
  with d e show "a = b"
    unfolding digit_char_def by (simp only: nth_eq_iff_index_eq)
qed

lemma digit_char_digit: "d < 10 \<Longrightarrow> digit_char d \<in> set ''0123456789''"
  unfolding digit_char_def by (rule nth_mem) simp

lemma digits_nonempty: "digits n \<noteq> []"
  by (subst digits.simps) simp

lemma digits_chars: "set (digits n) \<subseteq> set ''0123456789''"
proof (induction n rule: digits.induct)
  case (1 n)
  have m: "digit_char (n mod 10) \<in> set ''0123456789''"
    by (rule digit_char_digit) simp
  show ?case
  proof (cases "n < 10")
    case True
    then have "digits n = [digit_char n]" by (subst digits.simps) simp
    with True digit_char_digit [of n] show ?thesis by simp
  next
    case False
    then have "digits n = digits (n div 10) @ [digit_char (n mod 10)]"
      by (subst digits.simps) simp
    with "1.IH" False m show ?thesis by simp
  qed
qed

lemma digits_inj: "digits n = digits k \<Longrightarrow> n = k"
proof (induction n arbitrary: k rule: digits.induct)
  case (1 n)
  show ?case
  proof (cases "n < 10")
    case small: True
    then have n: "digits n = [digit_char n]" by (subst digits.simps) simp
    show ?thesis
    proof (cases "k < 10")
      case True
      then have "digits k = [digit_char k]" by (subst digits.simps) simp
      with n "1.prems" small True show ?thesis by (simp add: digit_char_inj)
    next
      case False
      then have "digits k = digits (k div 10) @ [digit_char (k mod 10)]"
        by (subst digits.simps) simp
      with n "1.prems" digits_nonempty [of "k div 10"] show ?thesis by simp
    qed
  next
    case big: False
    then have n: "digits n = digits (n div 10) @ [digit_char (n mod 10)]"
      by (subst digits.simps) simp
    show ?thesis
    proof (cases "k < 10")
      case True
      then have "digits k = [digit_char k]" by (subst digits.simps) simp
      with n "1.prems" digits_nonempty [of "n div 10"] show ?thesis by simp
    next
      case False
      then have "digits k = digits (k div 10) @ [digit_char (k mod 10)]"
        by (subst digits.simps) simp
      with n "1.prems" have e: "digits (n div 10) = digits (k div 10)"
        "digit_char (n mod 10) = digit_char (k mod 10)"
        by simp_all
      from "1.IH" [OF big e(1)] have "n div 10 = k div 10" .
      moreover from e(2) have "n mod 10 = k mod 10"
        by (intro digit_char_inj) simp_all
      ultimately show ?thesis by (metis div_mult_mod_eq)
    qed
  qed
qed

lemma digits_no_minus: "hd (digits n) \<noteq> CHR ''-''"
proof -
  have "hd (digits n) \<in> set (digits n)" by (simp add: digits_nonempty)
  with digits_chars [of n] have "hd (digits n) \<in> set ''0123456789''" by blast
  then show ?thesis by auto
qed

lemma decimal_inj:
  assumes "(if i < 0 then CHR ''-'' # digits (nat (- i)) else digits (nat i))
             = (if j < 0 then CHR ''-'' # digits (nat (- j)) else digits (nat j))"
  shows "i = (j::int)"
proof -
  consider "i < 0" "j < 0" | "i < 0" "\<not> j < 0" | "\<not> i < 0" "j < 0" | "\<not> i < 0" "\<not> j < 0"
    by blast
  then show "i = j"
  proof cases
    case 1
    with assms have "digits (nat (- i)) = digits (nat (- j))" by simp
    then have "nat (- i) = nat (- j)" by (rule digits_inj)
    with 1 show ?thesis by simp
  next
    case 2
    with assms have "CHR ''-'' # digits (nat (- i)) = digits (nat j)" by simp
    then have "hd (digits (nat j)) = CHR ''-''" by (metis list.sel(1))
    with digits_no_minus show ?thesis by blast
  next
    case 3
    with assms have "digits (nat i) = CHR ''-'' # digits (nat (- j))" by simp
    then have "hd (digits (nat i)) = CHR ''-''" by (metis list.sel(1))
    with digits_no_minus show ?thesis by blast
  next
    case 4
    with assms have "digits (nat i) = digits (nat j)" by simp
    then have "nat i = nat j" by (rule digits_inj)
    with 4 show ?thesis by simp
  qed
qed

text \<open>An id of magnitude below \<open>2^53\<close> is an exact double and prints all its digits.\<close>

lemma roundMagnitude_safe: "n < 9007199254740992 \<Longrightarrow> roundMagnitude n = n"
  by (simp add: roundMagnitude_def)

lemma toDouble_safe: "\<bar>i\<bar> < 9007199254740992 \<Longrightarrow> toDouble i = i"
proof (cases "i < 0")
  case True
  assume "\<bar>i\<bar> < 9007199254740992"
  with True have "nat (- i) < 9007199254740992" by simp
  with True show ?thesis by (simp add: toDouble_def roundMagnitude_safe)
next
  case False
  assume "\<bar>i\<bar> < 9007199254740992"
  with False have "nat i < 9007199254740992" by simp
  with False show ?thesis by (simp add: toDouble_def roundMagnitude_safe)
qed

lemma numberToString_safe:
  assumes "\<bar>i\<bar> < 9007199254740992"
  shows "numberToString (toDouble i)
           = (if i < 0 then CHR ''-'' # digits (nat (- i)) else digits (nat i))"
proof (cases "i < 0")
  case True
  with assms have "nat \<bar>i\<bar> = nat (- i)" "nat (- i) < 2 ^ 53" by simp_all
  with True show ?thesis
    by (simp only: toDouble_safe [OF assms] numberToString_def Let_def if_True)
next
  case False
  with assms have "nat \<bar>i\<bar> = nat i" "nat i < 2 ^ 53" by simp_all
  with False show ?thesis
    by (simp only: toDouble_safe [OF assms] numberToString_def Let_def if_True if_False)
qed

lemma numberToString_safe_inj:
  assumes "\<bar>i\<bar> < 9007199254740992" and "\<bar>j\<bar> < 9007199254740992"
    and "numberToString (toDouble i) = numberToString (toDouble j)"
  shows "i = j"
  using assms(3) unfolding numberToString_safe [OF assms(1)] numberToString_safe [OF assms(2)]
  by (rule decimal_inj)

lemma zoneModes_distinct:
  assumes "distinct (map area_id areas)"
    and "\<forall>a\<in>set areas. \<bar>area_id a\<bar> < 9007199254740992"
  shows "distinct (zoneModes areas)"
proof -
  have inj: "inj_on (\<lambda>a. ''zone_'' @ numberToString (toDouble (area_id a))) (set areas)"
  proof (rule inj_onI)
    fix a b assume ab: "a \<in> set areas" "b \<in> set areas"
      and "''zone_'' @ numberToString (toDouble (area_id a))
             = ''zone_'' @ numberToString (toDouble (area_id b))"
    then have "numberToString (toDouble (area_id a)) = numberToString (toDouble (area_id b))"
      by simp
    with ab assms(2) have "area_id a = area_id b"
      by (intro numberToString_safe_inj) auto
    with assms(1) ab show "a = b"
      by (meson distinct_map inj_onD)
  qed
  from assms(1) have "distinct areas" by (simp add: distinct_map)
  with inj have "distinct (map (\<lambda>a. ''zone_'' @ numberToString (toDouble (area_id a))) areas)"
    by (simp add: distinct_map)
  moreover have "''radar'' \<notin> set (map (\<lambda>a. ''zone_'' @ numberToString (toDouble (area_id a))) areas)"
    by auto
  ultimately show ?thesis by (simp add: zoneModes_def)
qed

section \<open>Unknown session\<close>

text \<open>
  C6. A control message of any type whose \<open>sessionId\<close> is not a key of the session table
  leaves the whole manager (every session, the socket registry) as it was and performs no
  send and no other effect.
\<close>

theorem unknown_session_dropped:
  "map_of (sessions m) (sessionId message) = None \<Longrightarrow>
   handleControlMessage now isOpen areas ws message m = (m, [])"
  by (simp add: handleControlMessage_def getSession_missing)

theorem unknown_session_dropped_witness:
  "map_of (sessions session9999) (sessionId (controlMsg MODE ''1234'' (Some ''forward''))) = None
   \<and> handleControlMessage 7 allOpen [zone 1] 3 (controlMsg MODE ''1234'' (Some ''forward'')) session9999
       = (session9999, [])"
proof -
  have h: "map_of (sessions session9999) (sessionId (controlMsg MODE ''1234'' (Some ''forward''))) = None"
    by (simp add: model_defs)
  from unknown_session_dropped [OF h] h show ?thesis by blast
qed

section \<open>Mode cycle\<close>

lemma handleModeChange_resnap:
  "(mode (currentView s) = ''radar''
      \<and> mode (currentView (fst (handleModeChange isOpen areas s d))) \<noteq> ''radar''
    \<longrightarrow> range_cv (currentView (fst (handleModeChange isOpen areas s d))) = Some 1)
   \<and> (mode (currentView s) \<noteq> ''radar''
      \<and> mode (currentView (fst (handleModeChange isOpen areas s d))) = ''radar''
    \<longrightarrow> range_cv (currentView (fst (handleModeChange isOpen areas s d))) = Some 10)
   \<and> (mode (currentView s) \<noteq> ''radar''
      \<and> mode (currentView (fst (handleModeChange isOpen areas s d))) \<noteq> ''radar''
    \<longrightarrow> range_cv (currentView (fst (handleModeChange isOpen areas s d))) = range_cv (currentView s))"
  by (simp add: handleModeChange_def Let_def)

text \<open>
  C1. Session \<open>9999\<close> is freshly created (mode radar, range 10) and has a registered
  controller; the zone directory holds zones 1 and 2. MODE forward gives mode \<open>zone_1\<close> and
  range 1, a second MODE forward gives \<open>zone_2\<close> with range still 1, a third gives radar with
  range 10, and MODE backward then gives \<open>zone_2\<close>. For every MODE message to an existing
  session: a step from radar to a mode other than radar sets range to 1, a step from a mode
  other than radar to radar sets range to 10, and a step between two modes other than radar
  keeps the range.
\<close>

theorem mode_cycle_range_resnap:
  "viewOf session9999 ''9999''
     = Some \<lparr>mode = ''radar'', range_cv = Some 10, zonesEnabled = Some False, selectedAircraft = None\<rparr>
   \<and> controllers (the (map_of (sessions session9999) ''9999'')) = [1]
   \<and> viewOf (processAll 1 allOpen [zone 1, zone 2]
               [(1, controlMsg MODE ''9999'' (Some ''forward''))] session9999) ''9999''
     = Some \<lparr>mode = ''zone_1'', range_cv = Some 1, zonesEnabled = Some False, selectedAircraft = None\<rparr>
   \<and> viewOf (processAll 1 allOpen [zone 1, zone 2]
               [(1, controlMsg MODE ''9999'' (Some ''forward'')),
                (1, controlMsg MODE ''9999'' (Some ''forward''))] session9999) ''9999''
     = Some \<lparr>mode = ''zone_2'', range_cv = Some 1, zonesEnabled = Some False, selectedAircraft = None\<rparr>
   \<and> viewOf (processAll 1 allOpen [zone 1, zone 2]
               [(1, controlMsg MODE ''9999'' (Some ''forward'')),
                (1, controlMsg MODE ''9999'' (Some ''forward'')),
                (1, controlMsg MODE ''9999'' (Some ''forward''))] session9999) ''9999''
     = Some \<lparr>mode = ''radar'', range_cv = Some 10, zonesEnabled = Some False, selectedAircraft = None\<rparr>
   \<and> modeOf (processAll 1 allOpen [zone 1, zone 2]
               [(1, controlMsg MODE ''9999'' (Some ''forward'')),
                (1, controlMsg MODE ''9999'' (Some ''forward'')),
                (1, controlMsg MODE ''9999'' (Some ''forward'')),
                (1, controlMsg MODE ''9999'' (Some ''backward''))] session9999) ''9999''
     = Some ''zone_2''
   \<and> (\<forall>m message s now isOpen areas ws.
         map_of (sessions m) (sessionId message) = Some s \<and> msg_type message = MODE \<longrightarrow>
         (\<exists>v'. viewOf (fst (handleControlMessage now isOpen areas ws message m)) (sessionId message)
                 = Some v'
            \<and> (mode (currentView s) = ''radar'' \<and> mode v' \<noteq> ''radar'' \<longrightarrow> range_cv v' = Some 1)
            \<and> (mode (currentView s) \<noteq> ''radar'' \<and> mode v' = ''radar'' \<longrightarrow> range_cv v' = Some 10)
            \<and> (mode (currentView s) \<noteq> ''radar'' \<and> mode v' \<noteq> ''radar''
                 \<longrightarrow> range_cv v' = range_cv (currentView s))))"
proof (intro conjI allI impI)
  show "viewOf session9999 ''9999''
     = Some \<lparr>mode = ''radar'', range_cv = Some 10, zonesEnabled = Some False, selectedAircraft = None\<rparr>"
    by (simp add: model_defs)
  show "controllers (the (map_of (sessions session9999) ''9999'')) = [1]"
    by (simp add: model_defs)
  show "viewOf (processAll 1 allOpen [zone 1, zone 2]
               [(1, controlMsg MODE ''9999'' (Some ''forward''))] session9999) ''9999''
     = Some \<lparr>mode = ''zone_1'', range_cv = Some 1, zonesEnabled = Some False, selectedAircraft = None\<rparr>"
    by (simp add: model_defs)
  show "viewOf (processAll 1 allOpen [zone 1, zone 2]
               [(1, controlMsg MODE ''9999'' (Some ''forward'')),
                (1, controlMsg MODE ''9999'' (Some ''forward''))] session9999) ''9999''
     = Some \<lparr>mode = ''zone_2'', range_cv = Some 1, zonesEnabled = Some False, selectedAircraft = None\<rparr>"
    by (simp add: model_defs)
  show "viewOf (processAll 1 allOpen [zone 1, zone 2]
               [(1, controlMsg MODE ''9999'' (Some ''forward'')),
                (1, controlMsg MODE ''9999'' (Some ''forward'')),
                (1, controlMsg MODE ''9999'' (Some ''forward''))] session9999) ''9999''
     = Some \<lparr>mode = ''radar'', range_cv = Some 10, zonesEnabled = Some False, selectedAircraft = None\<rparr>"
    by (simp add: model_defs)
  show "modeOf (processAll 1 allOpen [zone 1, zone 2]
               [(1, controlMsg MODE ''9999'' (Some ''forward'')),
                (1, controlMsg MODE ''9999'' (Some ''forward'')),
                (1, controlMsg MODE ''9999'' (Some ''forward'')),
                (1, controlMsg MODE ''9999'' (Some ''backward''))] session9999) ''9999''
     = Some ''zone_2''"
    by (simp add: modeOf_def model_defs)
next
  fix m :: Manager and message :: ControlMessage and s now isOpen areas ws
  assume a: "map_of (sessions m) (sessionId message) = Some s \<and> msg_type message = MODE"
  let ?s' = "fst (handleModeChange isOpen areas (s\<lparr>lastActivity := now\<rparr>)
                    (stringOr (direction message) ''forward''))"
  have "viewOf (fst (handleControlMessage now isOpen areas ws message m)) (sessionId message)
          = Some (currentView ?s')"
    using a by (simp add: handle_MODE viewOf_store)
  moreover have "(mode (currentView s) = ''radar'' \<and> mode (currentView ?s') \<noteq> ''radar''
                    \<longrightarrow> range_cv (currentView ?s') = Some 1)
     \<and> (mode (currentView s) \<noteq> ''radar'' \<and> mode (currentView ?s') = ''radar''
                    \<longrightarrow> range_cv (currentView ?s') = Some 10)
     \<and> (mode (currentView s) \<noteq> ''radar'' \<and> mode (currentView ?s') \<noteq> ''radar''
                    \<longrightarrow> range_cv (currentView ?s') = range_cv (currentView s))"
    using handleModeChange_resnap [of "s\<lparr>lastActivity := now\<rparr>" isOpen areas
                                      "stringOr (direction message) ''forward''"]
    by simp
  ultimately show "\<exists>v'. viewOf (fst (handleControlMessage now isOpen areas ws message m)) (sessionId message)
                 = Some v'
            \<and> (mode (currentView s) = ''radar'' \<and> mode v' \<noteq> ''radar'' \<longrightarrow> range_cv v' = Some 1)
            \<and> (mode (currentView s) \<noteq> ''radar'' \<and> mode v' = ''radar'' \<longrightarrow> range_cv v' = Some 10)
            \<and> (mode (currentView s) \<noteq> ''radar'' \<and> mode v' \<noteq> ''radar''
                 \<longrightarrow> range_cv v' = range_cv (currentView s))"
    by blast
qed

theorem mode_cycle_range_resnap_witness:
  "(map_of (sessions session9999) (sessionId (controlMsg MODE ''9999'' (Some ''forward'')))
      = Some (the (map_of (sessions session9999) ''9999''))
    \<and> msg_type (controlMsg MODE ''9999'' (Some ''forward'')) = MODE)
   \<and> mode (currentView (the (map_of (sessions session9999) ''9999''))) = ''radar''
   \<and> modeOf (fst (handleControlMessage 1 allOpen [zone 1, zone 2] 1
                     (controlMsg MODE ''9999'' (Some ''forward'')) session9999)) ''9999''
       = Some ''zone_1''
   \<and> rangeOf (fst (handleControlMessage 1 allOpen [zone 1, zone 2] 1
                      (controlMsg MODE ''9999'' (Some ''forward'')) session9999)) ''9999''
       = Some 1"
proof -
  let ?msg = "controlMsg MODE ''9999'' (Some ''forward'')"
  let ?s = "the (map_of (sessions session9999) ''9999'')"
  let ?m' = "fst (handleControlMessage 1 allOpen [zone 1, zone 2] 1 ?msg session9999)"
  have h: "map_of (sessions session9999) (sessionId ?msg) = Some ?s \<and> msg_type ?msg = MODE"
    by (simp add: model_defs)
  have r: "mode (currentView ?s) = ''radar''"
    by (simp add: model_defs)
  have i: "sessionId ?msg = ''9999''"
    by (simp add: controlMsg_def)
  have md: "modeOf ?m' ''9999'' = Some ''zone_1''"
    by (simp add: model_defs)
  from mode_cycle_range_resnap
  have "\<forall>m message s now isOpen areas ws.
         map_of (sessions m) (sessionId message) = Some s \<and> msg_type message = MODE \<longrightarrow>
         (\<exists>v'. viewOf (fst (handleControlMessage now isOpen areas ws message m)) (sessionId message)
                 = Some v'
            \<and> (mode (currentView s) = ''radar'' \<and> mode v' \<noteq> ''radar'' \<longrightarrow> range_cv v' = Some 1)
            \<and> (mode (currentView s) \<noteq> ''radar'' \<and> mode v' = ''radar'' \<longrightarrow> range_cv v' = Some 10)
            \<and> (mode (currentView s) \<noteq> ''radar'' \<and> mode v' \<noteq> ''radar''
                 \<longrightarrow> range_cv v' = range_cv (currentView s)))"
    by blast
  from this [rule_format, OF h, of 1 allOpen "[zone 1, zone 2]" 1]
  obtain v' where v: "viewOf ?m' ''9999'' = Some v'"
    "mode (currentView ?s) = ''radar'' \<and> mode v' \<noteq> ''radar'' \<longrightarrow> range_cv v' = Some 1"
    unfolding i by blast
  from v(1) md have "mode v' = ''zone_1''"
    by (simp add: modeOf_def)
  with v(2) r have "range_cv v' = Some 1" by simp
  with v(1) have "rangeOf ?m' ''9999'' = Some 1"
    by (simp add: rangeOf_def)
  with h r md show ?thesis by blast
qed

section \<open>Range step\<close>

lemma handleRangeChange_first_backward:
  "range_cv (currentView s) = Some (hd (rangeDomain (mode (currentView s) = ''radar''))) \<Longrightarrow>
   range_cv (currentView (fst (handleRangeChange isOpen s ''backward'')))
     = Some (last (rangeDomain (mode (currentView s) = ''radar'')))"
  by (cases "mode (currentView s) = ''radar''")
     (simp_all add: handleRangeChange_def rangeDomain_def stepIndex_def indexOf_def numberOr_def Let_def)

lemma handleRangeChange_last_forward:
  "range_cv (currentView s) = Some (last (rangeDomain (mode (currentView s) = ''radar''))) \<Longrightarrow>
   range_cv (currentView (fst (handleRangeChange isOpen s ''forward'')))
     = Some (hd (rangeDomain (mode (currentView s) = ''radar'')))"
  by (cases "mode (currentView s) = ''radar''")
     (simp_all add: handleRangeChange_def rangeDomain_def stepIndex_def indexOf_def numberOr_def
        js_rem_def Let_def)

lemma rangeOf_handle_RANGE:
  assumes "map_of (sessions m) (sessionId message) = Some s" and "msg_type message = RANGE"
  shows "rangeOf (fst (handleControlMessage now isOpen areas ws message m)) (sessionId message)
           = range_cv (currentView (fst (handleRangeChange isOpen (s\<lparr>lastActivity := now\<rparr>)
                                           (stringOr (direction message) ''forward''))))"
  using assms by (simp add: handle_RANGE rangeOf_def viewOf_store)

text \<open>
  C8. For a RANGE message to an existing session: when the range is the first element of
  the active domain, direction backward sets it to the last element; when the range is the
  last element, direction forward sets it to the first. From radar mode with range 10, four
  RANGE backward messages give the ranges 5, 100, 50, 25.
\<close>

theorem range_wraparound:
  "(\<forall>m message s now isOpen areas ws.
      map_of (sessions m) (sessionId message) = Some s \<and> msg_type message = RANGE \<longrightarrow>
      (range_cv (currentView s) = Some (hd (rangeDomain (mode (currentView s) = ''radar'')))
         \<and> direction message = Some ''backward'' \<longrightarrow>
       rangeOf (fst (handleControlMessage now isOpen areas ws message m)) (sessionId message)
         = Some (last (rangeDomain (mode (currentView s) = ''radar''))))
      \<and> (range_cv (currentView s) = Some (last (rangeDomain (mode (currentView s) = ''radar'')))
         \<and> direction message = Some ''forward'' \<longrightarrow>
       rangeOf (fst (handleControlMessage now isOpen areas ws message m)) (sessionId message)
         = Some (hd (rangeDomain (mode (currentView s) = ''radar'')))))
   \<and> rangeDomain True = [5, 10, 15, 25, 50, 100]
   \<and> rangeDomain False = [1, 4, 12, 24]
   \<and> modeOf session9999 ''9999'' = Some ''radar''
   \<and> rangeOf session9999 ''9999'' = Some 10
   \<and> rangeOf (processAll 1 allOpen []
                [(1, controlMsg RANGE ''9999'' (Some ''backward''))] session9999) ''9999'' = Some 5
   \<and> rangeOf (processAll 1 allOpen []
                [(1, controlMsg RANGE ''9999'' (Some ''backward'')),
                 (1, controlMsg RANGE ''9999'' (Some ''backward''))] session9999) ''9999'' = Some 100
   \<and> rangeOf (processAll 1 allOpen []
                [(1, controlMsg RANGE ''9999'' (Some ''backward'')),
                 (1, controlMsg RANGE ''9999'' (Some ''backward'')),
                 (1, controlMsg RANGE ''9999'' (Some ''backward''))] session9999) ''9999'' = Some 50
   \<and> rangeOf (processAll 1 allOpen []
                [(1, controlMsg RANGE ''9999'' (Some ''backward'')),
                 (1, controlMsg RANGE ''9999'' (Some ''backward'')),
                 (1, controlMsg RANGE ''9999'' (Some ''backward'')),
                 (1, controlMsg RANGE ''9999'' (Some ''backward''))] session9999) ''9999'' = Some 25"
proof (intro conjI allI impI)
  show "rangeDomain True = [5, 10, 15, 25, 50, 100]" "rangeDomain False = [1, 4, 12, 24]"
    by (simp_all add: rangeDomain_def)
  show "modeOf session9999 ''9999'' = Some ''radar''" "rangeOf session9999 ''9999'' = Some 10"
    by (simp_all add: model_defs)
  show "rangeOf (processAll 1 allOpen []
                [(1, controlMsg RANGE ''9999'' (Some ''backward''))] session9999) ''9999'' = Some 5"
    by (simp add: model_defs)
  show "rangeOf (processAll 1 allOpen []
                [(1, controlMsg RANGE ''9999'' (Some ''backward'')),
                 (1, controlMsg RANGE ''9999'' (Some ''backward''))] session9999) ''9999'' = Some 100"
    by (simp add: model_defs)
  show "rangeOf (processAll 1 allOpen []
                [(1, controlMsg RANGE ''9999'' (Some ''backward'')),
                 (1, controlMsg RANGE ''9999'' (Some ''backward'')),
                 (1, controlMsg RANGE ''9999'' (Some ''backward''))] session9999) ''9999'' = Some 50"
    by (simp add: model_defs)
  show "rangeOf (processAll 1 allOpen []
                [(1, controlMsg RANGE ''9999'' (Some ''backward'')),
                 (1, controlMsg RANGE ''9999'' (Some ''backward'')),
                 (1, controlMsg RANGE ''9999'' (Some ''backward'')),
                 (1, controlMsg RANGE ''9999'' (Some ''backward''))] session9999) ''9999'' = Some 25"
    by (simp add: model_defs)
next
  fix m :: Manager and message :: ControlMessage and s now isOpen areas ws
  assume a: "map_of (sessions m) (sessionId message) = Some s \<and> msg_type message = RANGE"
    and b: "range_cv (currentView s) = Some (hd (rangeDomain (mode (currentView s) = ''radar'')))
              \<and> direction message = Some ''backward''"
  from b have "stringOr (direction message) ''forward'' = ''backward''"
    by (simp add: stringOr_def)
  with a b handleRangeChange_first_backward [of "s\<lparr>lastActivity := now\<rparr>" isOpen]
  show "rangeOf (fst (handleControlMessage now isOpen areas ws message m)) (sessionId message)
          = Some (last (rangeDomain (mode (currentView s) = ''radar'')))"
    by (simp add: rangeOf_handle_RANGE)
next
  fix m :: Manager and message :: ControlMessage and s now isOpen areas ws
  assume a: "map_of (sessions m) (sessionId message) = Some s \<and> msg_type message = RANGE"
    and b: "range_cv (currentView s) = Some (last (rangeDomain (mode (currentView s) = ''radar'')))
              \<and> direction message = Some ''forward''"
  from b have "stringOr (direction message) ''forward'' = ''forward''"
    by (simp add: stringOr_def)
  with a b handleRangeChange_last_forward [of "s\<lparr>lastActivity := now\<rparr>" isOpen]
  show "rangeOf (fst (handleControlMessage now isOpen areas ws message m)) (sessionId message)
          = Some (hd (rangeDomain (mode (currentView s) = ''radar'')))"
    by (simp add: rangeOf_handle_RANGE)
qed

theorem range_wraparound_witness:
  "(map_of (sessions (atRange 5)) (sessionId (controlMsg RANGE ''9999'' (Some ''backward'')))
      = Some (the (map_of (sessions (atRange 5)) ''9999''))
    \<and> msg_type (controlMsg RANGE ''9999'' (Some ''backward'')) = RANGE)
   \<and> (range_cv (currentView (the (map_of (sessions (atRange 5)) ''9999'')))
        = Some (hd (rangeDomain (mode (currentView (the (map_of (sessions (atRange 5)) ''9999''))) = ''radar'')))
      \<and> direction (controlMsg RANGE ''9999'' (Some ''backward'')) = Some ''backward'')
   \<and> rangeOf (fst (handleControlMessage 1 allOpen [] 1
                      (controlMsg RANGE ''9999'' (Some ''backward'')) (atRange 5)))
        (sessionId (controlMsg RANGE ''9999'' (Some ''backward''))) = Some 100"
proof -
  let ?msg = "controlMsg RANGE ''9999'' (Some ''backward'')"
  let ?s = "the (map_of (sessions (atRange 5)) ''9999'')"
  have h: "map_of (sessions (atRange 5)) (sessionId ?msg) = Some ?s \<and> msg_type ?msg = RANGE"
    by (simp add: atRange_def model_defs)
  have g: "range_cv (currentView ?s) = Some (hd (rangeDomain (mode (currentView ?s) = ''radar'')))
           \<and> direction ?msg = Some ''backward''"
    by (simp add: atRange_def model_defs)
  have l: "last (rangeDomain (mode (currentView ?s) = ''radar'')) = 100"
    by (simp add: atRange_def model_defs)
  from range_wraparound
  have "\<forall>m message s now isOpen areas ws.
      map_of (sessions m) (sessionId message) = Some s \<and> msg_type message = RANGE \<longrightarrow>
      (range_cv (currentView s) = Some (hd (rangeDomain (mode (currentView s) = ''radar'')))
         \<and> direction message = Some ''backward'' \<longrightarrow>
       rangeOf (fst (handleControlMessage now isOpen areas ws message m)) (sessionId message)
         = Some (last (rangeDomain (mode (currentView s) = ''radar''))))
      \<and> (range_cv (currentView s) = Some (last (rangeDomain (mode (currentView s) = ''radar'')))
         \<and> direction message = Some ''forward'' \<longrightarrow>
       rangeOf (fst (handleControlMessage now isOpen areas ws message m)) (sessionId message)
         = Some (hd (rangeDomain (mode (currentView s) = ''radar''))))"
    by blast
  from this [rule_format, OF h, of 1 allOpen "[]" 1, THEN conjunct1, rule_format, OF g] h g l
  show ?thesis by simp
qed

section \<open>Eviction sweep\<close>

lemma fold_delete_keys:
  "fold (\<lambda>(sid, session) tbl. if P session then AList.delete sid tbl else tbl) es tbl
     = filter (\<lambda>(k, s). k \<notin> fst ` {e \<in> set es. P (snd e)}) tbl"
proof (induction es arbitrary: tbl)
  case Nil
  then show ?case by simp
next
  case (Cons e es)
  obtain k s where e: "e = (k, s)" by (cases e)
  show ?case
  proof (cases "P s")
    case True
    have "{x \<in> set (e # es). P (snd x)} = insert (k, s) {x \<in> set es. P (snd x)}"
      using True e by auto
    then have "fst ` {x \<in> set (e # es). P (snd x)} = insert k (fst ` {x \<in> set es. P (snd x)})"
      by simp
    then show ?thesis
      using True e Cons.IH [of "AList.delete k tbl"]
      by (auto simp: AList.delete_eq intro: filter_cong)
  next
    case False
    have "{x \<in> set (e # es). P (snd x)} = {x \<in> set es. P (snd x)}"
      using False e by auto
    then have "fst ` {x \<in> set (e # es). P (snd x)} = fst ` {x \<in> set es. P (snd x)}"
      by simp
    then show ?thesis
      using False e Cons.IH [of tbl] by simp
  qed
qed

lemma distinct_keys_value:
  "distinct (map fst tbl) \<Longrightarrow> (k, a) \<in> set tbl \<Longrightarrow> (k, b) \<in> set tbl \<Longrightarrow> a = b"
  by (metis map_of_is_SomeI option.inject)

lemma sweep_is_filter:
  assumes "distinct (map fst tbl)"
  shows "fold (\<lambda>(sid, session) t. if P session then AList.delete sid t else t) tbl tbl
           = filter (\<lambda>(k, s). \<not> P s) tbl"
proof -
  have "filter (\<lambda>(k, s). k \<notin> fst ` {e \<in> set tbl. P (snd e)}) tbl = filter (\<lambda>(k, s). \<not> P s) tbl"
  proof (rule filter_cong [OF refl])
    fix x assume x: "x \<in> set tbl"
    obtain k s where ks: "x = (k, s)" by (cases x)
    have "k \<in> fst ` {e \<in> set tbl. P (snd e)} \<longleftrightarrow> P s"
    proof
      assume "k \<in> fst ` {e \<in> set tbl. P (snd e)}"
      then obtain s' where "(k, s') \<in> set tbl" "P s'" by force
      with distinct_keys_value [OF assms] x ks show "P s" by blast
    next
      assume "P s"
      with x ks show "k \<in> fst ` {e \<in> set tbl. P (snd e)}" by force
    qed
    with ks show "(case x of (k, s) \<Rightarrow> k \<notin> fst ` {e \<in> set tbl. P (snd e)})
                   = (case x of (k, s) \<Rightarrow> \<not> P s)"
      by simp
  qed
  then show ?thesis by (simp add: fold_delete_keys)
qed

lemma map_of_filter_values:
  assumes "distinct (map fst tbl)"
  shows "map_of (filter (\<lambda>(k, s). \<not> P s) tbl) k
           = (case map_of tbl k of None \<Rightarrow> None | Some s \<Rightarrow> if P s then None else Some s)"
  using assms
proof (induction tbl)
  case Nil
  then show ?case by simp
next
  case (Cons e tbl)
  obtain k' s' where e: "e = (k', s')" by (cases e)
  from Cons.prems e have fresh: "k' \<notin> fst ` set tbl"
    by simp
  then have "k' \<notin> fst ` set (filter (\<lambda>(k, s). \<not> P s) tbl)"
    by auto
  then have "map_of (filter (\<lambda>(k, s). \<not> P s) tbl) k' = None"
    by (simp add: map_of_eq_None_iff)
  moreover from fresh have "map_of tbl k' = None"
    by (simp add: map_of_eq_None_iff)
  moreover from Cons have "map_of (filter (\<lambda>(k, s). \<not> P s) tbl) k
           = (case map_of tbl k of None \<Rightarrow> None | Some s \<Rightarrow> if P s then None else Some s)"
    by simp
  ultimately show ?case using e by auto
qed

text \<open>
  C7. The sweep removes from the session table exactly the sessions that have no viewer and
  no controller and whose last activity is more than 30 minutes (1800000 ms) before the
  sweep; every other entry stays, in order. A session with a viewer or a controller is
  still in the table after the sweep, however old its last activity. (The keys of the
  table are distinct, as the keys of a \<open>Map\<close> are.)
\<close>

theorem eviction_sweep_exact:
  assumes "distinct (map fst (sessions m))"
  shows "sessions (cleanupInactiveSessions now m)
           = filter (\<lambda>(sid, s). \<not> (viewers s = [] \<and> controllers s = []
                                       \<and> now - lastActivity s > 1800000)) (sessions m)
         \<and> (\<forall>sid. map_of (sessions (cleanupInactiveSessions now m)) sid
                    = (case map_of (sessions m) sid of
                         None \<Rightarrow> None
                       | Some s \<Rightarrow> if viewers s = [] \<and> controllers s = []
                                       \<and> now - lastActivity s > 1800000
                                    then None else Some s))
         \<and> (\<forall>sid s. map_of (sessions m) sid = Some s \<and> (viewers s \<noteq> [] \<or> controllers s \<noteq> [])
                \<longrightarrow> map_of (sessions (cleanupInactiveSessions now m)) sid = Some s)
         \<and> wsToSession (cleanupInactiveSessions now m) = wsToSession m"
proof -
  have P: "inactive now = (\<lambda>s. viewers s = [] \<and> controllers s = [] \<and> now - lastActivity s > 1800000)"
    by (rule ext) (simp add: inactive_def maxInactivity_def Let_def)
  have A: "sessions (cleanupInactiveSessions now m)
             = filter (\<lambda>(sid, s). \<not> inactive now s) (sessions m)"
    using sweep_is_filter [OF assms, of "inactive now"]
    by (simp add: cleanupInactiveSessions_def)
  have B: "\<And>sid. map_of (sessions (cleanupInactiveSessions now m)) sid
                    = (case map_of (sessions m) sid of
                         None \<Rightarrow> None
                       | Some s \<Rightarrow> if inactive now s then None else Some s)"
    unfolding A by (rule map_of_filter_values [OF assms])
  have C: "wsToSession (cleanupInactiveSessions now m) = wsToSession m"
    by (simp add: cleanupInactiveSessions_def)
  show ?thesis
    using A B C unfolding P by simp
qed

theorem eviction_sweep_exact_witness:
  "distinct (map fst (sessions twoSessions))
   \<and> map fst (sessions twoSessions) = [''1111'', ''2222'']
   \<and> map fst (sessions (cleanupInactiveSessions 1800001 twoSessions)) = [''2222'']
   \<and> map_of (sessions (cleanupInactiveSessions 99999999 twoSessions)) ''2222''
       = map_of (sessions twoSessions) ''2222''
   \<and> map_of (sessions (cleanupInactiveSessions 1800000 twoSessions)) ''1111''
       = map_of (sessions twoSessions) ''1111''"
proof -
  have d: "distinct (map fst (sessions twoSessions))"
    by (simp add: twoSessions_def model_defs)
  have k: "map fst (sessions twoSessions) = [''1111'', ''2222'']"
    by (simp add: twoSessions_def model_defs)
  have v: "viewers (the (map_of (sessions twoSessions) ''2222'')) = [4]"
    "viewers (the (map_of (sessions twoSessions) ''1111'')) = []"
    "controllers (the (map_of (sessions twoSessions) ''1111'')) = []"
    "lastActivity (the (map_of (sessions twoSessions) ''1111'')) = 0"
    "lastActivity (the (map_of (sessions twoSessions) ''2222'')) = 0"
    "map_of (sessions twoSessions) ''1111'' \<noteq> None"
    "map_of (sessions twoSessions) ''2222'' \<noteq> None"
    by (simp_all add: twoSessions_def model_defs)
  note th = eviction_sweep_exact [OF d]
  have "map fst (sessions (cleanupInactiveSessions 1800001 twoSessions)) = [''2222'']"
    using th [of 1800001, THEN conjunct1] by (simp add: twoSessions_def model_defs)
  moreover have "map_of (sessions (cleanupInactiveSessions 99999999 twoSessions)) ''2222''
       = map_of (sessions twoSessions) ''2222''"
    using th [of 99999999, THEN conjunct2, THEN conjunct1, rule_format, of "''2222''"] v
    by (auto split: option.splits)
  moreover have "map_of (sessions (cleanupInactiveSessions 1800000 twoSessions)) ''1111''
       = map_of (sessions twoSessions) ''1111''"
    using th [of 1800000, THEN conjunct2, THEN conjunct1, rule_format, of "''1111''"] v
    by (auto split: option.splits)
  ultimately show ?thesis using d k by simp
qed

section \<open>Select\<close>

lemma handleSelectChange_session: "fst (handleSelectChange isOpen s d) = s"
  by (simp add: handleSelectChange_def)

lemma handleSelectChange_effects:
  "snd (handleSelectChange isOpen s d)
     = (if mode (currentView s) = ''radar''
        then map (\<lambda>v. Send v (SELECT_AIRCRAFT (id_session s) d)) (filter isOpen (viewers s))
        else [])"
  by (simp add: handleSelectChange_def)

text \<open>
  C5 (amended). A SELECT message to an existing session changes nothing of the session but
  the activity stamp that every lookup sets: the display state (mode, range, zonesEnabled,
  selectedAircraft), the viewers and the controllers stay as they were, as do all other
  sessions and the socket registry. In radar mode the effects are exactly one
  \<open>SELECT_AIRCRAFT\<close> frame, carrying the direction of the message (forward when the message
  has none), for each open socket of the viewers set: every socket that is sent a frame is
  an open member of the viewers set, so a controller socket receives it exactly when it is
  also registered as a viewer and open. In any other mode there is no effect at all.
\<close>

theorem select_stateless_relay:
  assumes "map_of (sessions m) (sessionId message) = Some s" and "msg_type message = SELECT"
  shows "fst (handleControlMessage now isOpen areas ws message m)
           = store (sessionId message) (s\<lparr>lastActivity := now\<rparr>) m
         \<and> viewOf (fst (handleControlMessage now isOpen areas ws message m)) (sessionId message)
             = Some (currentView s)
         \<and> (mode (currentView s) = ''radar'' \<longrightarrow>
              snd (handleControlMessage now isOpen areas ws message m)
                = map (\<lambda>v. Send v (SELECT_AIRCRAFT (id_session s)
                                      (stringOr (direction message) ''forward'')))
                      (filter isOpen (viewers s)))
         \<and> (mode (currentView s) \<noteq> ''radar'' \<longrightarrow>
              snd (handleControlMessage now isOpen areas ws message m) = [])
         \<and> (\<forall>d. direction message = Some d \<and> d \<noteq> [] \<longrightarrow> stringOr (direction message) ''forward'' = d)
         \<and> (\<forall>c e. Send c e \<in> set (snd (handleControlMessage now isOpen areas ws message m))
                \<longrightarrow> c \<in> set (viewers s) \<and> isOpen c)"
proof -
  let ?s = "s\<lparr>lastActivity := now\<rparr>"
  let ?d = "stringOr (direction message) ''forward''"
  have R: "handleControlMessage now isOpen areas ws message m
             = (store (sessionId message) ?s m, snd (handleSelectChange isOpen ?s ?d))"
    using handle_SELECT [OF assms] by (simp add: handleSelectChange_session)
  have E: "snd (handleSelectChange isOpen ?s ?d)
             = (if mode (currentView s) = ''radar''
                then map (\<lambda>v. Send v (SELECT_AIRCRAFT (id_session s) ?d)) (filter isOpen (viewers s))
                else [])"
    by (simp add: handleSelectChange_effects)
  have V: "viewOf (store (sessionId message) ?s m) (sessionId message) = Some (currentView s)"
    by (simp add: viewOf_store)
  have D: "\<forall>d. direction message = Some d \<and> d \<noteq> [] \<longrightarrow> ?d = d"
    by (simp add: stringOr_def)
  have F: "\<forall>c e. Send c e \<in> set (snd (handleControlMessage now isOpen areas ws message m))
             \<longrightarrow> c \<in> set (viewers s) \<and> isOpen c"
  proof (intro allI impI)
    fix c e
    assume "Send c e \<in> set (snd (handleControlMessage now isOpen areas ws message m))"
    then have "Send c e \<in> set (if mode (currentView s) = ''radar''
                then map (\<lambda>v. Send v (SELECT_AIRCRAFT (id_session s) ?d)) (filter isOpen (viewers s))
                else [])"
      by (simp only: R E snd_conv)
    then show "c \<in> set (viewers s) \<and> isOpen c"
      by (cases "mode (currentView s) = ''radar''") auto
  qed
  have A: "fst (handleControlMessage now isOpen areas ws message m)
             = store (sessionId message) ?s m"
    by (simp only: R fst_conv)
  have B: "mode (currentView s) = ''radar'' \<longrightarrow>
             snd (handleControlMessage now isOpen areas ws message m)
               = map (\<lambda>v. Send v (SELECT_AIRCRAFT (id_session s) ?d)) (filter isOpen (viewers s))"
    by (simp add: R E)
  have C: "mode (currentView s) \<noteq> ''radar'' \<longrightarrow>
             snd (handleControlMessage now isOpen areas ws message m) = []"
    by (simp add: R E)
  from V A have V': "viewOf (fst (handleControlMessage now isOpen areas ws message m)) (sessionId message)
                       = Some (currentView s)"
    by (simp only:)
  from A V' B C D F show ?thesis by blast
qed

theorem select_stateless_relay_witness:
  "(map_of (sessions withViewer) (sessionId (controlMsg SELECT ''9999'' (Some ''backward'')))
      = Some (the (map_of (sessions withViewer) ''9999''))
    \<and> msg_type (controlMsg SELECT ''9999'' (Some ''backward'')) = SELECT)
   \<and> viewers (the (map_of (sessions withViewer) ''9999'')) = [2]
   \<and> controllers (the (map_of (sessions withViewer) ''9999'')) = [1]
   \<and> viewOf (fst (handleControlMessage 5 allOpen [] 1
                      (controlMsg SELECT ''9999'' (Some ''backward'')) withViewer)) ''9999''
       = viewOf withViewer ''9999''
   \<and> snd (handleControlMessage 5 allOpen [] 1
             (controlMsg SELECT ''9999'' (Some ''backward'')) withViewer)
       = [Send 2 (SELECT_AIRCRAFT ''9999'' ''backward'')]"
proof -
  let ?msg = "controlMsg SELECT ''9999'' (Some ''backward'')"
  let ?s = "the (map_of (sessions withViewer) ''9999'')"
  have h1: "map_of (sessions withViewer) (sessionId ?msg) = Some ?s"
    by (simp add: withViewer_def model_defs)
  have h2: "msg_type ?msg = SELECT"
    by (simp add: controlMsg_def)
  have f: "viewers ?s = [2]" "controllers ?s = [1]" "mode (currentView ?s) = ''radar''"
    "id_session ?s = ''9999''" "viewOf withViewer ''9999'' = Some (currentView ?s)"
    "sessionId ?msg = ''9999''" "stringOr (direction ?msg) ''forward'' = ''backward''"
    by (simp_all add: withViewer_def model_defs)
  note th = select_stateless_relay [OF h1 h2, of 5 allOpen "[]" 1]
  from th have v: "viewOf (fst (handleControlMessage 5 allOpen [] 1 ?msg withViewer)) (sessionId ?msg)
                     = Some (currentView ?s)"
    by blast
  from th f(3) have "snd (handleControlMessage 5 allOpen [] 1 ?msg withViewer)
          = map (\<lambda>v. Send v (SELECT_AIRCRAFT (id_session ?s) (stringOr (direction ?msg) ''forward'')))
                (filter allOpen (viewers ?s))"
    by blast
  then have e: "snd (handleControlMessage 5 allOpen [] 1 ?msg withViewer)
          = [Send 2 (SELECT_AIRCRAFT ''9999'' ''backward'')]"
    by (simp add: f allOpen_def)
  from v f(5,6) have "viewOf (fst (handleControlMessage 5 allOpen [] 1 ?msg withViewer)) ''9999''
                        = viewOf withViewer ''9999''"
    by simp
  with h1 h2 f(1,2) e show ?thesis by simp
qed


text \<open>
  The claim as stated fails for a socket registered in both roles: socket 1 is the
  controller of session \<open>9999\<close> and also a viewer of it, and SELECT sends the
  \<open>SELECT_AIRCRAFT\<close> frame to it.
\<close>

theorem select_controller_receives_counterexample:
  "controllers (the (map_of (sessions bothRoles) ''9999'')) = [1]
   \<and> viewers (the (map_of (sessions bothRoles) ''9999'')) = [1]
   \<and> modeOf bothRoles ''9999'' = Some ''radar''
   \<and> snd (handleControlMessage 5 allOpen [] 1
            (controlMsg SELECT ''9999'' (Some ''forward'')) bothRoles)
       = [Send 1 (SELECT_AIRCRAFT ''9999'' ''forward'')]"
  by (simp add: bothRoles_def model_defs)

section \<open>Viewer registration\<close>

lemma getSession_store:
  "getSession now sid (store sid s m)
     = (Some (s\<lparr>lastActivity := now\<rparr>), store sid (s\<lparr>lastActivity := now\<rparr>) m)"
  by (simp add: getSession_found [OF map_of_store_same] store_store)

lemma registerViewer_found:
  assumes "map_of (sessions m) sid = Some s"
  shows "registerViewer now isOpen sid ws rv m
           = (True,
              (store sid (s\<lparr>lastActivity := now, viewers := set_add ws (viewers s),
                     currentView := adoptReported rv (currentView s)\<rparr>) m)
                \<lparr>wsToSession := AList.update ws sid (wsToSession m)\<rparr>,
              (if reportedDiffers rv (currentView s)
               then broadcastToControllers isOpen
                      (s\<lparr>lastActivity := now, viewers := set_add ws (viewers s),
                     currentView := adoptReported rv (currentView s)\<rparr>)
               else [])
              @ sendStateToClient isOpen ws
                  (s\<lparr>lastActivity := now, viewers := set_add ws (viewers s),
                     currentView := adoptReported rv (currentView s)\<rparr>))"
proof (cases rv)
  case None
  then show ?thesis
    using assms
    by (simp add: registerViewer_def getSession_found Let_def reportedDiffers_def
        adoptReported_def store_def)
next
  case (Some v)
  then show ?thesis
    using assms
    by (cases "truthy_str (rv_mode v) \<and> rv_mode v \<noteq> Some (mode (currentView s))";
        cases "truthy_num (rv_range v) \<and> rv_range v \<noteq> range_cv (currentView s)")
       (auto simp: registerViewer_def getSession_found Let_def reportedDiffers_def
          adoptReported_def store_def truthy_str_def truthy_num_def split: option.splits)
qed

lemma handle_REGISTER_VIEWER:
  assumes "map_of (sessions m) (sessionId message) = Some s"
    and "msg_type message = REGISTER_VIEWER"
  shows "handleControlMessage now isOpen areas ws message m
           = snd (registerViewer now isOpen (sessionId message) ws (reportedView message) m)"
proof -
  let ?s0 = "s\<lparr>lastActivity := now\<rparr>"
  have "map_of (sessions (store (sessionId message) ?s0 m)) (sessionId message) = Some ?s0"
    by (rule map_of_store_same)
  from registerViewer_found [OF this, of now isOpen ws "reportedView message"]
    registerViewer_found [OF assms(1), of now isOpen ws "reportedView message"]
  have "registerViewer now isOpen (sessionId message) ws (reportedView message)
          (store (sessionId message) ?s0 m)
        = registerViewer now isOpen (sessionId message) ws (reportedView message) m"
    by (simp add: store_def)
  with assms show ?thesis
    by (simp add: handleControlMessage_def getSession_found)
qed

text \<open>
  C4 (amended). A reported field counts when it is present and truthy: a non-empty mode, a
  non-zero range. When a viewer registers with an existing session, every reported field
  that counts replaces the session's value and the viewer's socket joins the viewers set.
  If some field that counts differs from the session's value, the effects are one
  \<open>STATE_UPDATE\<close> with the state after the overwrite for each open socket of the
  controllers set, in order, followed by the same frame for the registering socket if it is
  open, and nothing else. If no field that counts differs (or no view is reported), the
  display state is unchanged and the only effect is the frame for the registering socket.
\<close>

theorem register_viewer_resync:
  assumes "map_of (sessions m) (sessionId message) = Some s"
    and "msg_type message = REGISTER_VIEWER"
  shows "(let rv = reportedView message;
              view' = adoptReported rv (currentView s);
              upd = STATE_UPDATE (id_session s) (mode view') (numberOr (range_cv view') 10)
                      (boolOr (zonesEnabled (currentView s)));
              m' = fst (handleControlMessage now isOpen areas ws message m);
              out = snd (handleControlMessage now isOpen areas ws message m)
          in viewOf m' (sessionId message) = Some view'
             \<and> map_option viewers (map_of (sessions m') (sessionId message))
                 = Some (set_add ws (viewers s))
             \<and> map_option controllers (map_of (sessions m') (sessionId message))
                 = Some (controllers s)
             \<and> (\<forall>v md. rv = Some v \<and> rv_mode v = Some md \<and> md \<noteq> [] \<longrightarrow> mode view' = md)
             \<and> (\<forall>v r. rv = Some v \<and> rv_range v = Some r \<and> r \<noteq> 0 \<longrightarrow> range_cv view' = Some r)
             \<and> zonesEnabled view' = zonesEnabled (currentView s)
             \<and> selectedAircraft view' = selectedAircraft (currentView s)
             \<and> (reportedDiffers rv (currentView s) \<longrightarrow>
                  out = map (\<lambda>c. Send c upd) (filter isOpen (controllers s))
                        @ (if isOpen ws then [Send ws upd] else []))
             \<and> (\<not> reportedDiffers rv (currentView s) \<longrightarrow>
                  view' = currentView s \<and> out = (if isOpen ws then [Send ws upd] else [])))"
proof -
  let ?rv = "reportedView message"
  let ?view = "adoptReported ?rv (currentView s)"
  let ?s' = "s\<lparr>lastActivity := now, viewers := set_add ws (viewers s), currentView := ?view\<rparr>"
  have R: "handleControlMessage now isOpen areas ws message m
             = ((store (sessionId message) ?s' m)
                  \<lparr>wsToSession := AList.update ws (sessionId message) (wsToSession m)\<rparr>,
                (if reportedDiffers ?rv (currentView s) then broadcastToControllers isOpen ?s' else [])
                @ sendStateToClient isOpen ws ?s')"
    using handle_REGISTER_VIEWER [OF assms] registerViewer_found [OF assms(1)] by simp
  have Z: "zonesEnabled ?view = zonesEnabled (currentView s)"
    "selectedAircraft ?view = selectedAircraft (currentView s)"
    by (simp_all add: adoptReported_def split: option.splits)
  have U: "stateUpdate ?s' = STATE_UPDATE (id_session s) (mode ?view) (numberOr (range_cv ?view) 10)
                               (boolOr (zonesEnabled (currentView s)))"
    by (simp add: stateUpdate_def Z)
  have M: "map_of (sessions ((store (sessionId message) ?s' m)
                  \<lparr>wsToSession := AList.update ws (sessionId message) (wsToSession m)\<rparr>))
             (sessionId message) = Some ?s'"
    by (simp add: store_def update_conv')
  have A: "\<forall>v md. ?rv = Some v \<and> rv_mode v = Some md \<and> md \<noteq> [] \<longrightarrow> mode ?view = md"
    by (simp add: adoptReported_def truthy_str_def)
  have B: "\<forall>v r. ?rv = Some v \<and> rv_range v = Some r \<and> r \<noteq> 0 \<longrightarrow> range_cv ?view = Some r"
    by (simp add: adoptReported_def truthy_num_def)
  have C: "\<not> reportedDiffers ?rv (currentView s) \<longrightarrow> ?view = currentView s"
    by (auto simp: reportedDiffers_def adoptReported_def truthy_str_def truthy_num_def
        split: option.splits)
  show ?thesis
    unfolding Let_def R fst_conv snd_conv viewOf_def M
    using A B C Z
    by (auto simp: U stateUpdate_def broadcastToControllers_def sendStateToClient_def)
qed

theorem register_viewer_resync_witness:
  "(map_of (sessions session9999) (sessionId (registerMsg ''9999'' (Some ''zone_1'') (Some 4)))
      = Some (the (map_of (sessions session9999) ''9999''))
    \<and> msg_type (registerMsg ''9999'' (Some ''zone_1'') (Some 4)) = REGISTER_VIEWER)
   \<and> reportedDiffers (reportedView (registerMsg ''9999'' (Some ''zone_1'') (Some 4)))
        (currentView (the (map_of (sessions session9999) ''9999'')))
   \<and> viewOf (fst (handleControlMessage 3 allOpen [] 2
                     (registerMsg ''9999'' (Some ''zone_1'') (Some 4)) session9999)) ''9999''
       = Some \<lparr>mode = ''zone_1'', range_cv = Some 4, zonesEnabled = Some False,
               selectedAircraft = None\<rparr>
   \<and> snd (handleControlMessage 3 allOpen [] 2
            (registerMsg ''9999'' (Some ''zone_1'') (Some 4)) session9999)
       = [Send 1 (STATE_UPDATE ''9999'' ''zone_1'' 4 False),
          Send 2 (STATE_UPDATE ''9999'' ''zone_1'' 4 False)]"
proof -
  let ?msg = "registerMsg ''9999'' (Some ''zone_1'') (Some 4)"
  let ?s = "the (map_of (sessions session9999) ''9999'')"
  have h1: "map_of (sessions session9999) (sessionId ?msg) = Some ?s"
    by (simp add: registerMsg_def model_defs)
  have h2: "msg_type ?msg = REGISTER_VIEWER"
    by (simp add: registerMsg_def)
  have s: "?s = \<lparr>id_session = ''9999'', viewers = [], controllers = [1],
                 currentView = \<lparr>mode = ''radar'', range_cv = Some 10, zonesEnabled = Some False,
                                selectedAircraft = None\<rparr>,
                 createdAt = 0, lastActivity = 0\<rparr>"
    by (simp add: model_defs)
  have d: "reportedDiffers (reportedView ?msg) (currentView ?s)"
    unfolding s by (simp add: registerMsg_def reportedDiffers_def truthy_str_def)
  have a: "adoptReported (reportedView ?msg) (currentView ?s)
             = \<lparr>mode = ''zone_1'', range_cv = Some 4, zonesEnabled = Some False,
                selectedAircraft = None\<rparr>"
    unfolding s by (simp add: registerMsg_def adoptReported_def truthy_str_def truthy_num_def)
  have i: "sessionId ?msg = ''9999''"
    by (simp add: registerMsg_def)
  from register_viewer_resync [OF h1 h2, of 3 allOpen "[]" 2] d
  have "viewOf (fst (handleControlMessage 3 allOpen [] 2 ?msg session9999)) ''9999''
          = Some (adoptReported (reportedView ?msg) (currentView ?s))
        \<and> snd (handleControlMessage 3 allOpen [] 2 ?msg session9999)
          = map (\<lambda>c. Send c (STATE_UPDATE (id_session ?s)
                               (mode (adoptReported (reportedView ?msg) (currentView ?s)))
                               (numberOr (range_cv (adoptReported (reportedView ?msg) (currentView ?s))) 10)
                               (boolOr (zonesEnabled (currentView ?s)))))
                (filter allOpen (controllers ?s))
            @ [Send 2 (STATE_UPDATE (id_session ?s)
                               (mode (adoptReported (reportedView ?msg) (currentView ?s)))
                               (numberOr (range_cv (adoptReported (reportedView ?msg) (currentView ?s))) 10)
                               (boolOr (zonesEnabled (currentView ?s))))]"
    unfolding Let_def i by (simp add: allOpen_def)
  then have "viewOf (fst (handleControlMessage 3 allOpen [] 2 ?msg session9999)) ''9999''
          = Some \<lparr>mode = ''zone_1'', range_cv = Some 4, zonesEnabled = Some False,
                   selectedAircraft = None\<rparr>
        \<and> snd (handleControlMessage 3 allOpen [] 2 ?msg session9999)
          = [Send 1 (STATE_UPDATE ''9999'' ''zone_1'' 4 False),
             Send 2 (STATE_UPDATE ''9999'' ''zone_1'' 4 False)]"
    unfolding a unfolding s by (simp add: allOpen_def numberOr_def boolOr_def)
  with h1 h2 d show ?thesis by simp
qed

text \<open>
  The claim as stated fails on a reported range of 0: it differs from the session's range
  10, yet the session keeps range 10 and the controller (socket 1, open) is sent nothing.
\<close>

theorem register_viewer_zero_range_counterexample:
  "rv_range (the (reportedView (registerMsg ''9999'' (Some ''radar'') (Some 0)))) = Some 0
   \<and> rangeOf session9999 ''9999'' = Some 10
   \<and> controllers (the (map_of (sessions session9999) ''9999'')) = [1]
   \<and> rangeOf (fst (handleControlMessage 3 allOpen [] 2
                      (registerMsg ''9999'' (Some ''radar'') (Some 0)) session9999)) ''9999''
       = Some 10
   \<and> snd (handleControlMessage 3 allOpen [] 2
            (registerMsg ''9999'' (Some ''radar'') (Some 0)) session9999)
       = [Send 2 (STATE_UPDATE ''9999'' ''radar'' 10 False)]"
  by (simp add: registerMsg_def model_defs)

section \<open>Direction defaults\<close>

lemma stepIndex_not_forward: "d \<noteq> ''forward'' \<Longrightarrow> stepIndex d i n = stepIndex ''backward'' i n"
  by (simp add: stepIndex_def)

lemma handleModeChange_not_forward:
  "d \<noteq> ''forward'' \<Longrightarrow>
   handleModeChange isOpen areas s d = handleModeChange isOpen areas s ''backward''"
  by (simp add: handleModeChange_def stepIndex_not_forward [of d])

lemma handleRangeChange_not_forward:
  "d \<noteq> ''forward'' \<Longrightarrow> handleRangeChange isOpen s d = handleRangeChange isOpen s ''backward''"
  by (simp add: handleRangeChange_def stepIndex_not_forward [of d])

lemma handle_direction_default:
  "stringOr (direction message) ''forward'' = stringOr (direction message') ''forward'' \<Longrightarrow>
   msg_type message = msg_type message' \<Longrightarrow> sessionId message = sessionId message' \<Longrightarrow>
   reportedView message = reportedView message' \<Longrightarrow>
   handleControlMessage now isOpen areas ws message m
     = handleControlMessage now isOpen areas ws message' m"
  by (simp add: handleControlMessage_def split: prod.splits option.splits MessageType.splits)

text \<open>
  C9 (amended). For a message of any type, a direction that is absent or is the empty
  string is handled exactly as \<open>forward\<close>. For a MODE or RANGE message (for every type but
  SELECT), a direction that is present, not empty and not \<open>forward\<close> is handled exactly as
  \<open>backward\<close>. For a SELECT message to an existing session in radar mode, a direction that
  is present and not empty is relayed as it is in the \<open>SELECT_AIRCRAFT\<close> frames.
\<close>

theorem direction_defaults:
  "handleControlMessage now isOpen areas ws (message\<lparr>direction := None\<rparr>) m
     = handleControlMessage now isOpen areas ws (message\<lparr>direction := Some ''forward''\<rparr>) m
   \<and> handleControlMessage now isOpen areas ws (message\<lparr>direction := Some []\<rparr>) m
     = handleControlMessage now isOpen areas ws (message\<lparr>direction := Some ''forward''\<rparr>) m
   \<and> (d \<noteq> [] \<and> d \<noteq> ''forward'' \<and> msg_type message \<noteq> SELECT \<longrightarrow>
        handleControlMessage now isOpen areas ws (message\<lparr>direction := Some d\<rparr>) m
          = handleControlMessage now isOpen areas ws (message\<lparr>direction := Some ''backward''\<rparr>) m)
   \<and> (d \<noteq> [] \<and> msg_type message = SELECT
        \<and> map_of (sessions m) (sessionId message) = Some s \<and> mode (currentView s) = ''radar'' \<longrightarrow>
        snd (handleControlMessage now isOpen areas ws (message\<lparr>direction := Some d\<rparr>) m)
          = map (\<lambda>v. Send v (SELECT_AIRCRAFT (id_session s) d)) (filter isOpen (viewers s)))"
proof (intro conjI impI)
  show "handleControlMessage now isOpen areas ws (message\<lparr>direction := None\<rparr>) m
     = handleControlMessage now isOpen areas ws (message\<lparr>direction := Some ''forward''\<rparr>) m"
    by (rule handle_direction_default) (simp_all add: stringOr_def)
  show "handleControlMessage now isOpen areas ws (message\<lparr>direction := Some []\<rparr>) m
     = handleControlMessage now isOpen areas ws (message\<lparr>direction := Some ''forward''\<rparr>) m"
    by (rule handle_direction_default) (simp_all add: stringOr_def)
next
  assume a: "d \<noteq> [] \<and> d \<noteq> ''forward'' \<and> msg_type message \<noteq> SELECT"
  then have "stringOr (Some d) ''forward'' = d" "stringOr (Some ''backward'') ''forward'' = ''backward''"
    by (simp_all add: stringOr_def)
  with a show "handleControlMessage now isOpen areas ws (message\<lparr>direction := Some d\<rparr>) m
          = handleControlMessage now isOpen areas ws (message\<lparr>direction := Some ''backward''\<rparr>) m"
    by (cases "msg_type message")
       (simp_all add: handleControlMessage_def handleModeChange_not_forward [of d]
          handleRangeChange_not_forward [of d] split: prod.splits option.splits)
next
  assume a: "d \<noteq> [] \<and> msg_type message = SELECT
        \<and> map_of (sessions m) (sessionId message) = Some s \<and> mode (currentView s) = ''radar''"
  then have "stringOr (Some d) ''forward'' = d"
    by (simp add: stringOr_def)
  with a handle_SELECT [of m "message\<lparr>direction := Some d\<rparr>" s now isOpen areas ws]
  show "snd (handleControlMessage now isOpen areas ws (message\<lparr>direction := Some d\<rparr>) m)
          = map (\<lambda>v. Send v (SELECT_AIRCRAFT (id_session s) d)) (filter isOpen (viewers s))"
    by (simp add: handleSelectChange_def)
qed

theorem direction_defaults_witness:
  "(''up'' \<noteq> [] \<and> ''up'' \<noteq> ''forward''
      \<and> msg_type (controlMsg RANGE ''9999'' None) \<noteq> SELECT)
   \<and> handleControlMessage 1 allOpen [] 1 (controlMsg RANGE ''9999'' (Some ''up'')) session9999
       = handleControlMessage 1 allOpen [] 1 (controlMsg RANGE ''9999'' (Some ''backward'')) session9999
   \<and> rangeOf (fst (handleControlMessage 1 allOpen [] 1 (controlMsg RANGE ''9999'' (Some ''up''))
                      session9999)) ''9999'' = Some 5
   \<and> rangeOf (fst (handleControlMessage 1 allOpen [] 1 (controlMsg RANGE ''9999'' None)
                      session9999)) ''9999'' = Some 15"
proof -
  have h: "''up'' \<noteq> [] \<and> ''up'' \<noteq> ''forward'' \<and> msg_type (controlMsg RANGE ''9999'' None) \<noteq> SELECT"
    by (simp add: controlMsg_def)
  have u: "(controlMsg RANGE ''9999'' None)\<lparr>direction := Some d\<rparr> = controlMsg RANGE ''9999'' (Some d)"
    for d by (simp add: controlMsg_def)
  from direction_defaults [of 1 allOpen "[]" 1 "controlMsg RANGE ''9999'' None" session9999 "''up''"]
  have "''up'' \<noteq> [] \<and> ''up'' \<noteq> ''forward'' \<and> msg_type (controlMsg RANGE ''9999'' None) \<noteq> SELECT \<longrightarrow>
        handleControlMessage 1 allOpen [] 1 (controlMsg RANGE ''9999'' (Some ''up'')) session9999
          = handleControlMessage 1 allOpen [] 1 (controlMsg RANGE ''9999'' (Some ''backward'')) session9999"
    unfolding u by blast
  with h have e: "handleControlMessage 1 allOpen [] 1 (controlMsg RANGE ''9999'' (Some ''up'')) session9999
          = handleControlMessage 1 allOpen [] 1 (controlMsg RANGE ''9999'' (Some ''backward'')) session9999"
    by blast
  have b: "rangeOf (fst (handleControlMessage 1 allOpen [] 1 (controlMsg RANGE ''9999'' (Some ''backward''))
                      session9999)) ''9999'' = Some 5"
    by (simp add: model_defs)
  have f: "rangeOf (fst (handleControlMessage 1 allOpen [] 1 (controlMsg RANGE ''9999'' None)
                      session9999)) ''9999'' = Some 15"
    by (simp add: model_defs)
  from h e b f show ?thesis by simp
qed

text \<open>
  The claim as stated fails on the empty string, a direction that is present and is not
  \<open>forward\<close>: RANGE with it steps forward (10 to 15), not backward (10 to 5). It also fails
  for SELECT, which relays the direction as it is instead of \<open>backward\<close>.
\<close>

theorem direction_defaults_counterexample:
  "rangeOf (fst (handleControlMessage 1 allOpen [] 1 (controlMsg RANGE ''9999'' (Some []))
                   session9999)) ''9999'' = Some 15
   \<and> rangeOf (fst (handleControlMessage 1 allOpen [] 1 (controlMsg RANGE ''9999'' (Some ''backward''))
                   session9999)) ''9999'' = Some 5
   \<and> snd (handleControlMessage 1 allOpen [] 1 (controlMsg SELECT ''9999'' (Some ''up'')) withViewer)
       = [Send 2 (SELECT_AIRCRAFT ''9999'' ''up'')]
   \<and> snd (handleControlMessage 1 allOpen [] 1 (controlMsg SELECT ''9999'' (Some ''backward'')) withViewer)
       = [Send 2 (SELECT_AIRCRAFT ''9999'' ''backward'')]"
  by (simp add: model_defs)

section \<open>Range step from a range outside the domain\<close>

lemma handleRangeChange_stale:
  assumes "range_cv (currentView s) = Some r" and "r \<noteq> 0"
    and "r \<notin> set (rangeDomain (mode (currentView s) = ''radar''))"
  shows "range_cv (currentView (fst (handleRangeChange isOpen s d)))
           = Some (if d = ''forward'' then hd (rangeDomain (mode (currentView s) = ''radar''))
                   else last (rangeDomain (mode (currentView s) = ''radar'')))"
proof -
  let ?dom = "rangeDomain (mode (currentView s) = ''radar'')"
  have cur: "numberOr (range_cv (currentView s)) (if mode (currentView s) = ''radar'' then 10 else 1) = r"
    using assms by (simp add: numberOr_def)
  have idx: "indexOf ?dom r = -1"
    using assms(3) by (rule indexOf_absent)
  have "?dom ! nat (stepIndex d (-1) (length ?dom)) = (if d = ''forward'' then hd ?dom else last ?dom)"
    by (cases "mode (currentView s) = ''radar''")
       (simp_all add: rangeDomain_def stepIndex_def js_rem_def)
  then show ?thesis
    by (simp add: handleRangeChange_def Let_def cur idx)
qed

lemma handleRangeChange_falsy:
  assumes "range_cv (currentView s) = None \<or> range_cv (currentView s) = Some 0"
  shows "range_cv (currentView (fst (handleRangeChange isOpen s d)))
           = Some (if mode (currentView s) = ''radar''
                   then (if d = ''forward'' then 15 else 5)
                   else (if d = ''forward'' then 4 else 24))"
proof (cases "mode (currentView s) = ''radar''")
  case True
  with assms have "numberOr (range_cv (currentView s)) (if mode (currentView s) = ''radar'' then 10 else 1) = 10"
    by (auto simp: numberOr_def)
  with True show ?thesis
    by (simp add: handleRangeChange_def Let_def rangeDomain_def indexOf_def stepIndex_def js_rem_def)
next
  case False
  with assms have "numberOr (range_cv (currentView s)) (if mode (currentView s) = ''radar'' then 10 else 1) = 1"
    by (auto simp: numberOr_def)
  with False show ?thesis
    by (simp add: handleRangeChange_def Let_def rangeDomain_def indexOf_def stepIndex_def js_rem_def)
qed

text \<open>
  C3 (amended). For a RANGE message to an existing session: when the session's range is
  present, not zero and not an element of the active domain, direction forward sets the
  range to the first element of the domain (5 for radar, 1 for zones) and any other
  direction sets it to the last element (100 for radar, 24 for zones). Only when the range
  is absent or zero is the step taken from the default position: forward gives 15 for radar
  and 4 for zones, any other direction gives 5 for radar and 24 for zones.
\<close>

theorem range_step_from_stale:
  assumes "map_of (sessions m) (sessionId message) = Some s" and "msg_type message = RANGE"
  shows "(\<forall>r. range_cv (currentView s) = Some r \<and> r \<noteq> 0
               \<and> r \<notin> set (rangeDomain (mode (currentView s) = ''radar'')) \<longrightarrow>
            rangeOf (fst (handleControlMessage now isOpen areas ws message m)) (sessionId message)
              = Some (if stringOr (direction message) ''forward'' = ''forward''
                      then hd (rangeDomain (mode (currentView s) = ''radar''))
                      else last (rangeDomain (mode (currentView s) = ''radar''))))
         \<and> (range_cv (currentView s) = None \<or> range_cv (currentView s) = Some 0 \<longrightarrow>
            rangeOf (fst (handleControlMessage now isOpen areas ws message m)) (sessionId message)
              = Some (if mode (currentView s) = ''radar''
                      then (if stringOr (direction message) ''forward'' = ''forward'' then 15 else 5)
                      else (if stringOr (direction message) ''forward'' = ''forward'' then 4 else 24)))
         \<and> hd (rangeDomain True) = 5 \<and> last (rangeDomain True) = 100
         \<and> hd (rangeDomain False) = 1 \<and> last (rangeDomain False) = 24"
proof -
  let ?s = "s\<lparr>lastActivity := now\<rparr>"
  have v: "currentView ?s = currentView s" by simp
  note R = rangeOf_handle_RANGE [OF assms, of now isOpen areas ws]
  have "\<forall>r. range_cv (currentView s) = Some r \<and> r \<noteq> 0
               \<and> r \<notin> set (rangeDomain (mode (currentView s) = ''radar'')) \<longrightarrow>
            rangeOf (fst (handleControlMessage now isOpen areas ws message m)) (sessionId message)
              = Some (if stringOr (direction message) ''forward'' = ''forward''
                      then hd (rangeDomain (mode (currentView s) = ''radar''))
                      else last (rangeDomain (mode (currentView s) = ''radar'')))"
    unfolding R using handleRangeChange_stale [of ?s _ isOpen] unfolding v by blast
  moreover have "range_cv (currentView s) = None \<or> range_cv (currentView s) = Some 0 \<longrightarrow>
            rangeOf (fst (handleControlMessage now isOpen areas ws message m)) (sessionId message)
              = Some (if mode (currentView s) = ''radar''
                      then (if stringOr (direction message) ''forward'' = ''forward'' then 15 else 5)
                      else (if stringOr (direction message) ''forward'' = ''forward'' then 4 else 24))"
    unfolding R using handleRangeChange_falsy [of ?s isOpen] unfolding v by blast
  moreover have "hd (rangeDomain True) = 5 \<and> last (rangeDomain True) = 100
         \<and> hd (rangeDomain False) = 1 \<and> last (rangeDomain False) = 24"
    by (simp add: rangeDomain_def)
  ultimately show ?thesis by blast
qed

theorem range_step_from_stale_witness:
  "(map_of (sessions staleRange) (sessionId (controlMsg RANGE ''9999'' (Some ''forward'')))
      = Some (the (map_of (sessions staleRange) ''9999''))
    \<and> msg_type (controlMsg RANGE ''9999'' (Some ''forward'')) = RANGE)
   \<and> (range_cv (currentView (the (map_of (sessions staleRange) ''9999''))) = Some 7 \<and> (7::rat) \<noteq> 0
      \<and> 7 \<notin> set (rangeDomain (mode (currentView (the (map_of (sessions staleRange) ''9999''))) = ''radar'')))
   \<and> rangeOf (fst (handleControlMessage 1 allOpen [] 1 (controlMsg RANGE ''9999'' (Some ''forward''))
                      staleRange)) (sessionId (controlMsg RANGE ''9999'' (Some ''forward'')))
       = Some 5"
proof -
  let ?msg = "controlMsg RANGE ''9999'' (Some ''forward'')"
  let ?s = "the (map_of (sessions staleRange) ''9999'')"
  have h1: "map_of (sessions staleRange) (sessionId ?msg) = Some ?s"
    by (simp add: staleRange_def model_defs)
  have h2: "msg_type ?msg = RANGE"
    by (simp add: controlMsg_def)
  have g: "range_cv (currentView ?s) = Some 7 \<and> (7::rat) \<noteq> 0
           \<and> 7 \<notin> set (rangeDomain (mode (currentView ?s) = ''radar''))"
    by (simp add: staleRange_def model_defs)
  have f: "stringOr (direction ?msg) ''forward'' = ''forward''"
    "hd (rangeDomain (mode (currentView ?s) = ''radar'')) = 5"
    by (simp_all add: staleRange_def model_defs)
  from range_step_from_stale [OF h1 h2, of 1 allOpen "[]" 1, THEN conjunct1, rule_format, OF g]
  have "rangeOf (fst (handleControlMessage 1 allOpen [] 1 ?msg staleRange)) (sessionId ?msg) = Some 5"
    unfolding f by simp
  with h1 h2 g show ?thesis by blast
qed

text \<open>
  The claim as stated fails on the reachable state with range 7 in radar mode: RANGE forward
  gives 5 where the entry after the default 10 is 15, and RANGE backward gives 100 where the
  entry before the default is 5.
\<close>

theorem range_step_from_stale_counterexample:
  "modeOf staleRange ''9999'' = Some ''radar''
   \<and> rangeOf staleRange ''9999'' = Some 7
   \<and> rangeOf (fst (handleControlMessage 1 allOpen [] 1 (controlMsg RANGE ''9999'' (Some ''forward''))
                     staleRange)) ''9999'' = Some 5
   \<and> rangeOf (fst (handleControlMessage 1 allOpen [] 1 (controlMsg RANGE ''9999'' (Some ''backward''))
                     staleRange)) ''9999'' = Some 100"
  by (simp add: staleRange_def model_defs)

section \<open>Mode cycle inverse\<close>

lemma cycle_round_trip:
  assumes "distinct xs" and "x \<in> set xs"
  shows "xs ! nat (stepIndex ''backward''
                    (indexOf xs (xs ! nat (stepIndex ''forward'' (indexOf xs x) (length xs))))
                    (length xs)) = x"
proof -
  let ?n = "int (length xs)"
  let ?i = "indexOf xs x"
  let ?j = "stepIndex ''forward'' ?i (length xs)"
  from assms(2) have len: "0 < length xs" by (cases xs) auto
  from indexOf_present [OF assms(2)]
  have i: "0 \<le> ?i" "?i < ?n" "xs ! nat ?i = x" by simp_all
  have j: "?j = (?i + 1) mod ?n"
    using i len by (simp add: stepIndex_def js_rem_nonneg)
  have jb: "0 \<le> ?j" "?j < ?n"
    using stepIndex_bounds [of ?i "length xs" "''forward''"] i len by simp_all
  then have "nat ?j < length xs" by simp
  from indexOf_nth [OF assms(1) this] jb
  have rt: "indexOf xs (xs ! nat ?j) = ?j" by simp
  have "stepIndex ''backward'' ?j (length xs) = ?i"
  proof (cases "?i + 1 = ?n")
    case True
    then have "?j = 0" using j by simp
    with True show ?thesis by (simp add: stepIndex_def)
  next
    case False
    with i have "?i + 1 < ?n" by simp
    with i j have "?j = ?i + 1" by simp
    with i show ?thesis by (simp add: stepIndex_def)
  qed
  with rt i show ?thesis by simp
qed

lemma handleModeChange_mode:
  "mode (currentView (fst (handleModeChange isOpen areas s d)))
     = zoneModes areas ! nat (stepIndex d (indexOf (zoneModes areas) (mode (currentView s)))
                               (length (zoneModes areas)))"
  by (simp add: handleModeChange_def Let_def)

lemma session_after_MODE:
  assumes "map_of (sessions m) (sessionId message) = Some s" and "msg_type message = MODE"
  shows "map_of (sessions (fst (handleControlMessage now isOpen areas ws message m))) (sessionId message)
           = Some (fst (handleModeChange isOpen areas (s\<lparr>lastActivity := now\<rparr>)
                          (stringOr (direction message) ''forward'')))"
  using assms by (simp add: handle_MODE map_of_store_same)

text \<open>
  C2 (amended). Let the zone directory be the same for both messages, with distinct zone
  ids of magnitude below \<open>2^53\<close> (the integers a JavaScript number holds exactly), and let
  the session's mode be an entry of the cycle built from it (radar, or \<open>zone_\<close> followed
  by the id of a listed zone). Then MODE forward followed by MODE backward leaves the
  session's mode equal to its original value.
\<close>

theorem mode_forward_backward_inverse:
  assumes "map_of (sessions m) sid = Some s"
    and "distinct (map area_id areas)"
    and "\<forall>a\<in>set areas. \<bar>area_id a\<bar> < 9007199254740992"
    and "mode (currentView s) \<in> set (zoneModes areas)"
  shows "modeOf (fst (handleControlMessage now2 isOpen2 areas ws2
                        (controlMsg MODE sid (Some ''backward''))
                        (fst (handleControlMessage now1 isOpen1 areas ws1
                                (controlMsg MODE sid (Some ''forward'')) m)))) sid
           = Some (mode (currentView s))"
proof -
  let ?fwd = "controlMsg MODE sid (Some ''forward'')"
  let ?bwd = "controlMsg MODE sid (Some ''backward'')"
  let ?modes = "zoneModes areas"
  let ?s1 = "fst (handleModeChange isOpen1 areas (s\<lparr>lastActivity := now1\<rparr>) ''forward'')"
  let ?m1 = "fst (handleControlMessage now1 isOpen1 areas ws1 ?fwd m)"
  let ?s2 = "fst (handleModeChange isOpen2 areas (?s1\<lparr>lastActivity := now2\<rparr>) ''backward'')"
  have f: "sessionId ?fwd = sid" "msg_type ?fwd = MODE" "stringOr (direction ?fwd) ''forward'' = ''forward''"
    and b: "sessionId ?bwd = sid" "msg_type ?bwd = MODE" "stringOr (direction ?bwd) ''forward'' = ''backward''"
    by (simp_all add: controlMsg_def stringOr_def)
  have 1: "map_of (sessions ?m1) sid = Some ?s1"
    using session_after_MODE [of m ?fwd s now1 isOpen1 areas ws1] assms(1) f by simp
  have 2: "map_of (sessions (fst (handleControlMessage now2 isOpen2 areas ws2 ?bwd ?m1))) sid = Some ?s2"
    using session_after_MODE [of ?m1 ?bwd ?s1 now2 isOpen2 areas ws2] 1 b by simp
  have m1: "mode (currentView ?s1)
              = ?modes ! nat (stepIndex ''forward'' (indexOf ?modes (mode (currentView s))) (length ?modes))"
    by (simp add: handleModeChange_mode)
  have "mode (currentView ?s2)
          = ?modes ! nat (stepIndex ''backward'' (indexOf ?modes (mode (currentView ?s1))) (length ?modes))"
    by (simp add: handleModeChange_mode)
  also have "\<dots> = mode (currentView s)"
    unfolding m1 by (rule cycle_round_trip [OF zoneModes_distinct [OF assms(2) assms(3)] assms(4)])
  finally show ?thesis
    using 2 by (simp add: modeOf_def viewOf_def)
qed

theorem mode_forward_backward_inverse_witness:
  "map_of (sessions parkedOnZone2) ''9999'' = Some (the (map_of (sessions parkedOnZone2) ''9999''))
   \<and> distinct (map area_id [zone 1, zone 2])
   \<and> list_all (\<lambda>a. \<bar>area_id a\<bar> < 9007199254740992) [zone 1, zone 2]
   \<and> mode (currentView (the (map_of (sessions parkedOnZone2) ''9999''))) \<in> set (zoneModes [zone 1, zone 2])
   \<and> mode (currentView (the (map_of (sessions parkedOnZone2) ''9999''))) = ''zone_2''
   \<and> modeOf (fst (handleControlMessage 2 allOpen [zone 1, zone 2] 1
                     (controlMsg MODE ''9999'' (Some ''backward''))
                     (fst (handleControlMessage 1 allOpen [zone 1, zone 2] 1
                             (controlMsg MODE ''9999'' (Some ''forward'')) parkedOnZone2)))) ''9999''
       = Some ''zone_2''"
proof -
  let ?s = "the (map_of (sessions parkedOnZone2) ''9999'')"
  have h1: "map_of (sessions parkedOnZone2) ''9999'' = Some ?s"
    by (simp add: parkedOnZone2_def model_defs)
  have h2: "distinct (map area_id [zone 1, zone 2])"
    by (simp add: zone_def)
  have h3: "\<forall>a\<in>set [zone 1, zone 2]. \<bar>area_id a\<bar> < 9007199254740992"
    by (simp add: zone_def)
  have md: "mode (currentView ?s) = ''zone_2''"
    by (simp add: parkedOnZone2_def model_defs)
  have h4: "mode (currentView ?s) \<in> set (zoneModes [zone 1, zone 2])"
    unfolding md by (simp add: model_defs)
  from h3 have l: "list_all (\<lambda>a. \<bar>area_id a\<bar> < 9007199254740992) [zone 1, zone 2]"
    by (simp add: zone_def)
  from mode_forward_backward_inverse [OF h1 h2 h3 h4, of 2 allOpen 1 1 allOpen 1] h1 h2 l h4 md
  show ?thesis by simp
qed

text \<open>
  The claim as stated fails when the session's mode is not in the cycle. The session is
  parked on \<open>zone_2\<close> and the directory now holds zone 1 only, for both messages: MODE
  forward gives radar and MODE backward then gives \<open>zone_1\<close>. It also fails when two
  distinct ids are the same JavaScript number: the ids \<open>2^53\<close> and \<open>2^53 + 1\<close> both
  reach the code as \<open>2^53\<close>, the cycle holds the mode of that number twice, and from that
  mode MODE forward then MODE backward ends on radar.
\<close>

lemma bitLength_big:
  "bitLength 9007199254740992 = 54" "bitLength 9007199254740993 = 54"
  by (simp_all add: bitLength.simps)

lemma toDouble_big:
  "toDouble 9007199254740992 = 9007199254740992" "toDouble 9007199254740993 = 9007199254740992"
  by (simp_all add: toDouble_def roundMagnitude_def bitLength_big Let_def)

lemma zoneModes_bigZones: "zoneModes bigZones = [''radar'', bigMode, bigMode]"
  by (simp add: zoneModes_def bigZones_def zone_def toDouble_big bigMode_def)

lemma bigMode_not_radar: "bigMode \<noteq> ''radar''" "''radar'' \<noteq> bigMode"
  by (simp_all add: bigMode_def)

theorem mode_forward_backward_counterexample:
  "modeOf parkedOnZone2 ''9999'' = Some ''zone_2''
   \<and> modeOf (processAll 1 allOpen [zone 1]
               [(1, controlMsg MODE ''9999'' (Some ''forward''))] parkedOnZone2) ''9999''
       = Some ''radar''
   \<and> modeOf (processAll 1 allOpen [zone 1]
               [(1, controlMsg MODE ''9999'' (Some ''forward'')),
                (1, controlMsg MODE ''9999'' (Some ''backward''))] parkedOnZone2) ''9999''
       = Some ''zone_1''
   \<and> distinct (map area_id bigZones)
   \<and> map (\<lambda>a. toDouble (area_id a)) bigZones = [9007199254740992, 9007199254740992]
   \<and> zoneModes bigZones = [''radar'', bigMode, bigMode]
   \<and> modeOf parkedOnBigZone ''9999'' = Some bigMode
   \<and> modeOf (processAll 1 allOpen bigZones
               [(1, controlMsg MODE ''9999'' (Some ''forward''))] parkedOnBigZone) ''9999''
       = Some bigMode
   \<and> modeOf (processAll 1 allOpen bigZones
               [(1, controlMsg MODE ''9999'' (Some ''forward'')),
                (1, controlMsg MODE ''9999'' (Some ''backward''))] parkedOnBigZone) ''9999''
       = Some ''radar''"
proof -
  note step_defs = handleControlMessage_def getSession_def store_def handleModeChange_def
    broadcastStateUpdate_def stateUpdate_def stepIndex_def indexOf_def js_rem_def numberOr_def
    stringOr_def boolOr_def set_add_def createSessionWith_def newSession_def has_def
    emptyManager_def viewOf_def modeOf_def controlMsg_def allOpen_def session9999_def
    registerController_def sendStateToClient_def Let_def
  have a: "modeOf parkedOnZone2 ''9999'' = Some ''zone_2''
   \<and> modeOf (processAll 1 allOpen [zone 1]
               [(1, controlMsg MODE ''9999'' (Some ''forward''))] parkedOnZone2) ''9999''
       = Some ''radar''
   \<and> modeOf (processAll 1 allOpen [zone 1]
               [(1, controlMsg MODE ''9999'' (Some ''forward'')),
                (1, controlMsg MODE ''9999'' (Some ''backward''))] parkedOnZone2) ''9999''
       = Some ''zone_1''"
    by (simp add: parkedOnZone2_def model_defs)
  have b: "distinct (map area_id bigZones)"
    by (simp add: bigZones_def zone_def)
  have b': "map (\<lambda>a. toDouble (area_id a)) bigZones = [9007199254740992, 9007199254740992]"
    by (simp add: bigZones_def zone_def toDouble_big)
  have c: "modeOf parkedOnBigZone ''9999'' = Some bigMode"
    by (simp add: parkedOnBigZone_def zoneModes_bigZones bigMode_not_radar step_defs)
  have d: "modeOf (processAll 1 allOpen bigZones
               [(1, controlMsg MODE ''9999'' (Some ''forward''))] parkedOnBigZone) ''9999''
       = Some bigMode"
    by (simp add: parkedOnBigZone_def zoneModes_bigZones bigMode_not_radar step_defs)
  have e: "modeOf (processAll 1 allOpen bigZones
               [(1, controlMsg MODE ''9999'' (Some ''forward'')),
                (1, controlMsg MODE ''9999'' (Some ''backward''))] parkedOnBigZone) ''9999''
       = Some ''radar''"
    by (simp add: parkedOnBigZone_def zoneModes_bigZones bigMode_not_radar step_defs)
  from a b b' c d e zoneModes_bigZones show ?thesis by blast
qed

end
